theory Spec2Isabelle
  imports Main
begin

section \<open>Strings as the extractor sees them\<close>

text \<open>
  Field texts are Python \<open>str\<close> values. A character is modelled by \<^typ>\<open>char\<close>, read as
  a code point below 256; \<open>isspace\<close> and \<open>lower\<close> are Python's \<open>str.isspace\<close> and
  \<open>str.lower\<close> on that range.
\<close>

definition isspace :: "char \<Rightarrow> bool" where
  "isspace c = (let n = (of_char c :: nat) in
     (9 \<le> n \<and> n \<le> 13) \<or> (28 \<le> n \<and> n \<le> 32) \<or> n = 133 \<or> n = 160)"

definition lstrip :: "string \<Rightarrow> string" where
  "lstrip s = dropWhile isspace s"

definition rstrip :: "string \<Rightarrow> string" where
  "rstrip s = rev (dropWhile isspace (rev s))"

definition strip :: "string \<Rightarrow> string" where
  "strip s = rstrip (lstrip s)"

definition lower_char :: "char \<Rightarrow> char" where
  "lower_char c = (let n = (of_char c :: nat) in
     if (65 \<le> n \<and> n \<le> 90) \<or> (192 \<le> n \<and> n \<le> 222 \<and> n \<noteq> 215)
     then char_of (n + 32) else c)"

definition lower :: "string \<Rightarrow> string" where
  "lower s = map lower_char s"

text \<open>Python truthiness of an \<open>Optional[str]\<close>: \<open>None\<close> and \<open>''\<close> are false.\<close>

definition truthy :: "string option \<Rightarrow> bool" where
  "truthy v = (case v of None \<Rightarrow> False | Some s \<Rightarrow> s \<noteq> [])"

section \<open>The parsed document\<close>

text \<open>
  An \<open>xml.etree.ElementTree\<close> element: its tag, its text (\<open>None\<close> or a string) and its
  children in document order.
\<close>

datatype element = Element (elem_tag: string) (elem_text: "string option")
  (elem_children: "element list")

text \<open>\<open>element.find(tag)\<close> and \<open>element.findall(tag)\<close> with a plain tag look at direct children.\<close>

definition elem_find :: "element \<Rightarrow> string \<Rightarrow> element option" where
  "elem_find e t = List.find (\<lambda>c. elem_tag c = t) (elem_children e)"

definition elem_findall :: "element \<Rightarrow> string \<Rightarrow> element list" where
  "elem_findall e t = filter (\<lambda>c. elem_tag c = t) (elem_children e)"

text \<open>\<open>element.iter()\<close>: the element and everything below it, in document order.\<close>

fun iter :: "element \<Rightarrow> element list" where
  "iter (Element t x cs) = Element t x cs # concat (map iter cs)"

text \<open>The path \<open>.//tag\<close> selects the descendants with that tag, the element itself excluded.\<close>

definition descendants :: "element \<Rightarrow> element list" where
  "descendants e = concat (map iter (elem_children e))"

definition find_desc :: "element \<Rightarrow> string \<Rightarrow> element option" where
  "find_desc e t = List.find (\<lambda>c. elem_tag c = t) (descendants e)"

definition findall_desc :: "element \<Rightarrow> string \<Rightarrow> element list" where
  "findall_desc e t = filter (\<lambda>c. elem_tag c = t) (descendants e)"

text \<open>
  \<open>if collection:\<close> on an element (or \<open>None\<close>) tests that it exists and has at least one
  child.
\<close>

definition elem_truthy :: "element option \<Rightarrow> bool" where
  "elem_truthy v = (case v of None \<Rightarrow> False | Some e \<Rightarrow> elem_children e \<noteq> [])"

section \<open>Field readers of \<open>XMLParser\<close>\<close>

definition get_text :: "element option \<Rightarrow> string \<Rightarrow> string option \<Rightarrow> string option" where
  "get_text element t dflt =
     (case element of
        None \<Rightarrow> dflt
      | Some e \<Rightarrow>
          (case elem_find e t of
             None \<Rightarrow> dflt
           | Some child \<Rightarrow>
               (if truthy (elem_text child) then Some (strip (the (elem_text child)))
                else dflt)))"

definition parse_boolean :: "string option \<Rightarrow> bool option" where
  "parse_boolean bool_str =
     (if \<not> truthy bool_str then None
      else Some (lower (strip (the bool_str)) \<in> set [''true'', ''1'', ''yes'']))"

section \<open>\<open>datetime.strptime\<close> and \<open>strftime\<close>\<close>

text \<open>
  \<open>datetime.strptime\<close> turns the format into a regular expression, matches it at the
  start of the text with the backtracking matcher of \<open>re\<close>, insists that the match covers
  the whole text, and builds the date from the named groups. Every failure is a
  \<open>ValueError\<close>. The regular expressions are those of the standard library's directive
  table; a run of whitespace in the format stands for \<open>\s+\<close>.
\<close>

datatype regex =
    Lit char
  | Digit
  | Range char char
  | Spaces
  | Seq regex regex
  | Alt regex regex
  | Group char regex

definition isdigit :: "char \<Rightarrow> bool" where
  "isdigit c = (let n = (of_char c :: nat) in 48 \<le> n \<and> n \<le> 57)"

text \<open>
  All the ways a regular expression matches a prefix of the text, in the order in which the
  backtracking matcher tries them: the groups bound, the text matched, and the rest.
\<close>

fun rmatch :: "regex \<Rightarrow> string \<Rightarrow> ((char \<times> string) list \<times> string \<times> string) list" where
  "rmatch (Lit c) s =
     (case s of [] \<Rightarrow> [] | x # xs \<Rightarrow> if x = c then [([], [x], xs)] else [])"
| "rmatch Digit s =
     (case s of [] \<Rightarrow> [] | x # xs \<Rightarrow> if isdigit x then [([], [x], xs)] else [])"
| "rmatch (Range a b) s =
     (case s of [] \<Rightarrow> []
      | x # xs \<Rightarrow>
          if (of_char a :: nat) \<le> of_char x \<and> (of_char x :: nat) \<le> of_char b
          then [([], [x], xs)] else [])"
| "rmatch Spaces s =
     map (\<lambda>k. ([], take k s, drop k s)) (rev [1 ..< Suc (length (takeWhile isspace s))])"
| "rmatch (Seq r1 r2) s =
     concat (map (\<lambda>(g1, m1, rest1).
               map (\<lambda>(g2, m2, rest2). (g1 @ g2, m1 @ m2, rest2)) (rmatch r2 rest1))
             (rmatch r1 s))"
| "rmatch (Alt r1 r2) s = rmatch r1 s @ rmatch r2 s"
| "rmatch (Group k r) s = map (\<lambda>(g, m, rest). (g @ [(k, m)], m, rest)) (rmatch r s)"

text \<open>An alternation and a sequence of one or more regular expressions.\<close>

fun alts :: "regex \<Rightarrow> regex list \<Rightarrow> regex" where
  "alts r [] = r"
| "alts r (x # xs) = Alt r (alts x xs)"

fun seqs :: "regex \<Rightarrow> regex list \<Rightarrow> regex" where
  "seqs r [] = r"
| "seqs r (x # xs) = Seq r (seqs x xs)"

text \<open>The directives the two parsers use, as in the library's table.\<close>

definition directive :: "char \<Rightarrow> regex option" where
  "directive d =
     (if d = CHR ''Y'' then Some (Group d (seqs Digit [Digit, Digit, Digit]))
      else if d = CHR ''m'' then
        Some (Group d
          (alts (Seq (Lit CHR ''1'') (Range CHR ''0'' CHR ''2''))
             [Seq (Lit CHR ''0'') (Range CHR ''1'' CHR ''9''),
              Range CHR ''1'' CHR ''9'']))
      else if d = CHR ''d'' then
        Some (Group d
          (alts (Seq (Lit CHR ''3'') (Range CHR ''0'' CHR ''1''))
             [Seq (Range CHR ''1'' CHR ''2'') Digit,
              Seq (Lit CHR ''0'') (Range CHR ''1'' CHR ''9''),
              Range CHR ''1'' CHR ''9'',
              Seq (Lit CHR '' '') (Range CHR ''1'' CHR ''9'')]))
      else if d = CHR ''H'' then
        Some (Group d
          (alts (Seq (Lit CHR ''2'') (Range CHR ''0'' CHR ''3''))
             [Seq (Range CHR ''0'' CHR ''1'') Digit,
              Digit]))
      else if d = CHR ''M'' then
        Some (Group d (alts (Seq (Range CHR ''0'' CHR ''5'') Digit) [Digit]))
      else if d = CHR ''S'' then
        Some (Group d
          (alts (Seq (Lit CHR ''6'') (Range CHR ''0'' CHR ''1''))
             [Seq (Range CHR ''0'' CHR ''5'') Digit,
              Digit]))
      else None)"

text \<open>
  The format as a list of regular expressions to match in sequence; \<open>None\<close> when the
  format has a directive outside the table (a \<open>ValueError\<close> in the library).
\<close>

function pattern :: "string \<Rightarrow> regex list option" where
  "pattern [] = Some []"
| "pattern (c # cs) =
     (if c = CHR ''%'' then
        (case cs of
           [] \<Rightarrow> None
         | d # ds \<Rightarrow>
             (case directive d of
                None \<Rightarrow> None
              | Some r \<Rightarrow> (case pattern ds of None \<Rightarrow> None | Some rs \<Rightarrow> Some (r # rs))))
      else if isspace c then
        (case pattern (dropWhile isspace cs) of None \<Rightarrow> None | Some rs \<Rightarrow> Some (Spaces # rs))
      else
        (case pattern cs of None \<Rightarrow> None | Some rs \<Rightarrow> Some (Lit c # rs)))"
  by pat_completeness auto
termination
  by (relation "measure length") (auto simp: le_imp_less_Suc length_dropWhile_le)

datatype py_error = ValueError

record datetime =
  year :: nat
  month :: nat
  day :: nat
  hour :: nat
  minute :: nat
  second :: nat

text \<open>\<open>int(text)\<close> on a group: surrounding whitespace is ignored, the rest are decimal digits.\<close>

definition py_int :: "string \<Rightarrow> nat" where
  "py_int s = foldl (\<lambda>n c. 10 * n + (of_char c - 48)) 0 (strip s)"

definition is_leap :: "nat \<Rightarrow> bool" where
  "is_leap y = (y mod 4 = 0 \<and> (y mod 100 \<noteq> 0 \<or> y mod 400 = 0))"

definition days_in_month :: "nat \<Rightarrow> nat \<Rightarrow> nat" where
  "days_in_month y m =
     (if m = 2 then (if is_leap y then 29 else 28)
      else if m \<in> set [4, 6, 9, 11] then 30 else 31)"

text \<open>A group the format does not bind keeps the library's default.\<close>

definition group_or :: "(char \<times> string) list \<Rightarrow> char \<Rightarrow> nat \<Rightarrow> nat" where
  "group_or g k d = (case map_of g k of None \<Rightarrow> d | Some t \<Rightarrow> py_int t)"

text \<open>
  The match of a whole format at the start of the text; the first element of the list is
  the match \<open>re.match\<close> returns. Each format of the two parsers binds the year.
\<close>

definition rmatch_format ::
  "regex list \<Rightarrow> string \<Rightarrow> ((char \<times> string) list \<times> string \<times> string) list" where
  "rmatch_format rs s = (case rs of [] \<Rightarrow> [([], [], s)] | r # rs' \<Rightarrow> rmatch (seqs r rs') s)"

definition strptime :: "string \<Rightarrow> string \<Rightarrow> py_error + datetime" where
  "strptime data_string format =
     (case pattern format of
        None \<Rightarrow> Inl ValueError
      | Some rs \<Rightarrow>
          (case rmatch_format rs data_string of
             [] \<Rightarrow> Inl ValueError
           | (g, m, rest) # _ \<Rightarrow>
               if rest \<noteq> [] then Inl ValueError
               else
                 (let y = group_or g CHR ''Y'' 1900; mo = group_or g CHR ''m'' 1;
                      d = group_or g CHR ''d'' 1; h = group_or g CHR ''H'' 0;
                      mi = group_or g CHR ''M'' 0; s = group_or g CHR ''S'' 0
                  in if y < 1 \<or> days_in_month y mo < d \<or> 59 < s then Inl ValueError
                     else Inr \<lparr>year = y, month = mo, day = d,
                               hour = h, minute = mi, second = s\<rparr>)))"

text \<open>
  \<open>strftime\<close> for the directives used: the year with four digits, the other fields with
  two. The C library behind \<open>strftime\<close> decides how \<open>%Y\<close> is written below the year
  1000: with four digits, as here, or without the leading zeros, as glibc does. From the
  year 1000 on they agree.
\<close>

fun zpad :: "nat \<Rightarrow> nat \<Rightarrow> string" where
  "zpad 0 n = []"
| "zpad (Suc k) n = zpad k (n div 10) @ [char_of (48 + n mod 10)]"

definition render :: "datetime \<Rightarrow> char \<Rightarrow> string" where
  "render dt d =
     (if d = CHR ''Y'' then zpad 4 (year dt)
      else if d = CHR ''m'' then zpad 2 (month dt)
      else if d = CHR ''d'' then zpad 2 (day dt)
      else if d = CHR ''H'' then zpad 2 (hour dt)
      else if d = CHR ''M'' then zpad 2 (minute dt)
      else if d = CHR ''S'' then zpad 2 (second dt)
      else [CHR ''%'', d])"

fun strftime :: "datetime \<Rightarrow> string \<Rightarrow> string" where
  "strftime dt [] = []"
| "strftime dt [c] = [c]"
| "strftime dt (c # d # cs) =
     (if c = CHR ''%'' then render dt d @ strftime dt cs else c # strftime dt (d # cs))"

subsection \<open>\<open>_parse_date\<close> and \<open>_parse_timestamp\<close>\<close>

text \<open>The loop over the candidate formats: the first one that parses ends it.\<close>

fun try_formats :: "string list \<Rightarrow> string \<Rightarrow> datetime option" where
  "try_formats [] s = None"
| "try_formats (fmt # fmts) s =
     (case strptime s fmt of Inr dt \<Rightarrow> Some dt | Inl ValueError \<Rightarrow> try_formats fmts s)"

definition parse_date :: "string option \<Rightarrow> string option" where
  "parse_date date_str =
     (if \<not> truthy date_str then None
      else
        (case try_formats [''%Y-%m-%d'', ''%Y-%m-%d %H:%M:%S'', ''%d/%m/%Y'']
                (strip (the date_str)) of
           None \<Rightarrow> None
         | Some dt \<Rightarrow> Some (strftime dt ''%Y-%m-%d'')))"

definition parse_timestamp :: "string option \<Rightarrow> string option" where
  "parse_timestamp timestamp_str =
     (if \<not> truthy timestamp_str then None
      else
        (case try_formats [''%Y-%m-%d %H:%M:%S'', ''%Y-%m-%d''] (strip (the timestamp_str)) of
           None \<Rightarrow> None
         | Some dt \<Rightarrow> Some (strftime dt ''%Y-%m-%d %H:%M:%S'')))"

section \<open>The extracted records\<close>

text \<open>
  The extractor builds one dictionary per record, with a fixed set of keys. Each kind is a
  record here; a field is named after its key, with the kind as a prefix where two kinds
  share a key.
\<close>

record vo_chong_info =
  voChongID :: "string option"
  voID :: "string option"
  chongID :: "string option"

record thuadat =
  td_thuaDatID :: string
  td_maDVHCXa :: "string option"
  td_soHieuToBanDo :: "string option"
  td_soThuTuThua :: "string option"
  td_dienTich :: "string option"
  td_dienTichPhapLy :: "string option"
  td_diaChiID :: "string option"
  td_voChongID :: "string option"
  td_voID :: "string option"
  td_chongID :: "string option"
  td_phanLoaiDuLieu :: "string option"
  td_trangThaiDangKy :: "string option"
  td_hieuLuc :: "bool option"
  td_phienBan :: "string option"

record giay_to_info =
  giayToTuyThanID :: "string option"
  tenLoaiGiayToTuyThan :: "string option"
  ngayCap :: "string option"
  noiCap :: "string option"
  maDinhDanhCaNhan :: "string option"
  hieuLuc :: "bool option"
  soGiayTo :: "string option"
  loaiGiayToTuyThan :: "string option"

text \<open>
  The eight keys of \<open>giay_to_info\<close> are spread into the person's dictionary; here they
  stay together as one field.
\<close>

record canhan =
  cn_caNhanID :: string
  cn_hoTen :: "string option"
  cn_namSinh :: "string option"
  cn_diaChiID :: "string option"
  cn_gioiTinh :: "string option"
  cn_phienBan :: "string option"
  cn_giay_to_info :: giay_to_info

record giaychungnhan =
  gcn_giayChungNhanID :: string
  gcn_soVaoSo :: "string option"
  gcn_soPhatHanh :: "string option"
  gcn_MaGiayChungNhan :: "string option"
  gcn_ngayCap :: "string option"
  gcn_maVach :: "string option"
  gcn_nguoiKy :: "string option"
  gcn_soVaoSoCu :: "string option"

record hoso =
  hs_thanhPhanHoSoID :: string
  hs_hoSoDangKySoID :: "string option"
  hs_giayChungNhanID :: "string option"
  hs_loaiGiayTo :: "string option"
  hs_tepTin :: "string option"
  hs_url :: "string option"
  hs_maHoSoLuuTru :: "string option"
  hs_maDVHCXa :: "string option"

section \<open>\<open>extract_thuadat_data\<close>\<close>

text \<open>
  The loop that fills \<open>vo_chong_map\<close>: a later pair with the same identifier replaces an
  earlier one.
\<close>

fun vo_chong_loop ::
  "element list \<Rightarrow> (string \<rightharpoonup> vo_chong_info) \<Rightarrow> (string \<rightharpoonup> vo_chong_info)" where
  "vo_chong_loop [] vo_chong_map = vo_chong_map"
| "vo_chong_loop (vo_chong # rest) vo_chong_map =
     (let vo_chong_id = get_text (Some vo_chong) ''voChongID'' None
      in if truthy vo_chong_id then
           vo_chong_loop rest
             (vo_chong_map(the vo_chong_id \<mapsto>
                \<lparr>voChongID = vo_chong_id,
                 voID = get_text (Some vo_chong) ''voID'' None,
                 chongID = get_text (Some vo_chong) ''chongID'' None\<rparr>))
         else vo_chong_loop rest vo_chong_map)"

definition build_vo_chong_map :: "element \<Rightarrow> (string \<rightharpoonup> vo_chong_info)" where
  "build_vo_chong_map root =
     (let vo_chong_collection = find_desc root ''VoChongCollection''
      in if elem_truthy vo_chong_collection
         then vo_chong_loop (elem_findall (the vo_chong_collection) ''VoChong'') Map.empty
         else Map.empty)"

text \<open>
  The loop over the usage-right nodes of the document, left at the first one that names
  the parcel and a key of the map.
\<close>

fun quyen_loop ::
  "element list \<Rightarrow> string \<Rightarrow> (string \<rightharpoonup> vo_chong_info) \<Rightarrow> vo_chong_info" where
  "quyen_loop [] thua_dat_id vo_chong_map = \<lparr>voChongID = None, voID = None, chongID = None\<rparr>"
| "quyen_loop (quyen_su_dung_dat # rest) thua_dat_id vo_chong_map =
     (if get_text (Some quyen_su_dung_dat) ''thuaDatID'' None = Some thua_dat_id then
        (let doi_tuong_id = get_text (Some quyen_su_dung_dat) ''doiTuongID'' None
         in if truthy doi_tuong_id \<and> vo_chong_map (the doi_tuong_id) \<noteq> None
            then the (vo_chong_map (the doi_tuong_id))
            else quyen_loop rest thua_dat_id vo_chong_map)
      else quyen_loop rest thua_dat_id vo_chong_map)"

definition thuadat_record :: "element \<Rightarrow> string \<Rightarrow> vo_chong_info \<Rightarrow> thuadat" where
  "thuadat_record thua_dat thua_dat_id vo_chong_info =
     \<lparr>td_thuaDatID = thua_dat_id,
      td_maDVHCXa = get_text (Some thua_dat) ''maDVHCXa'' None,
      td_soHieuToBanDo = get_text (Some thua_dat) ''soHieuToBanDo'' None,
      td_soThuTuThua = get_text (Some thua_dat) ''soThuTuThua'' None,
      td_dienTich = get_text (Some thua_dat) ''dienTich'' None,
      td_dienTichPhapLy = get_text (Some thua_dat) ''dienTichPhapLy'' None,
      td_diaChiID = get_text (Some thua_dat) ''diaChiID'' None,
      td_voChongID = voChongID vo_chong_info,
      td_voID = voID vo_chong_info,
      td_chongID = chongID vo_chong_info,
      td_phanLoaiDuLieu = get_text (Some thua_dat) ''phanLoaiDuLieu'' None,
      td_trangThaiDangKy = get_text (Some thua_dat) ''trangThaiDangKy'' None,
      td_hieuLuc = parse_boolean (get_text (Some thua_dat) ''hieuLuc'' (Some ''true'')),
      td_phienBan = get_text (Some thua_dat) ''phienBan'' None\<rparr>"

fun thuadat_loop ::
  "element \<Rightarrow> (string \<rightharpoonup> vo_chong_info) \<Rightarrow> element list \<Rightarrow> thuadat list" where
  "thuadat_loop root vo_chong_map [] = []"
| "thuadat_loop root vo_chong_map (thua_dat # rest) =
     (let thua_dat_id = get_text (Some thua_dat) ''thuaDatID'' None
      in if \<not> truthy thua_dat_id then thuadat_loop root vo_chong_map rest
         else
           thuadat_record thua_dat (the thua_dat_id)
             (quyen_loop (findall_desc root ''QuyenSuDungDat'') (the thua_dat_id) vo_chong_map)
           # thuadat_loop root vo_chong_map rest)"

definition extract_thuadat_data :: "element \<Rightarrow> thuadat list" where
  "extract_thuadat_data root =
     (let vo_chong_map = build_vo_chong_map root;
          thua_dat_collection = find_desc root ''ThuaDatCollection''
      in if elem_truthy thua_dat_collection
         then thuadat_loop root vo_chong_map
                (elem_findall (the thua_dat_collection) ''DC_ThuaDat'')
         else [])"

section \<open>\<open>extract_canhan_data\<close>\<close>

definition null_giay_to_info :: giay_to_info where
  "null_giay_to_info =
     \<lparr>giayToTuyThanID = None, tenLoaiGiayToTuyThan = None, ngayCap = None, noiCap = None,
      maDinhDanhCaNhan = None, hieuLuc = None, soGiayTo = None, loaiGiayToTuyThan = None\<rparr>"

definition read_giay_to :: "element \<Rightarrow> giay_to_info" where
  "read_giay_to giay_to =
     \<lparr>giayToTuyThanID = get_text (Some giay_to) ''giayToTuyThanID'' None,
      tenLoaiGiayToTuyThan = get_text (Some giay_to) ''tenLoaiGiayToTuyThan'' None,
      ngayCap = parse_date (get_text (Some giay_to) ''ngayCap'' (Some [])),
      noiCap = get_text (Some giay_to) ''noiCap'' None,
      maDinhDanhCaNhan = get_text (Some giay_to) ''maDinhDanhCaNhan'' None,
      hieuLuc = parse_boolean (get_text (Some giay_to) ''hieuLuc'' (Some [])),
      soGiayTo = get_text (Some giay_to) ''soGiayTo'' None,
      loaiGiayToTuyThan = get_text (Some giay_to) ''loaiGiayToTuyThan'' None\<rparr>"

text \<open>The first identity document of a person node, if there is one.\<close>

definition first_giay_to :: "element \<Rightarrow> giay_to_info" where
  "first_giay_to ca_nhan =
     (let giay_to_collection = elem_find ca_nhan ''GiayToTuyThanCollection''
      in if elem_truthy giay_to_collection then
           (case elem_find (the giay_to_collection) ''GiayToTuyThan'' of
              None \<Rightarrow> null_giay_to_info
            | Some giay_to \<Rightarrow> read_giay_to giay_to)
         else null_giay_to_info)"

definition canhan_record :: "element \<Rightarrow> string \<Rightarrow> canhan" where
  "canhan_record ca_nhan ca_nhan_id =
     \<lparr>cn_caNhanID = ca_nhan_id,
      cn_hoTen = get_text (Some ca_nhan) ''hoTen'' None,
      cn_namSinh = get_text (Some ca_nhan) ''namSinh'' None,
      cn_diaChiID = get_text (Some ca_nhan) ''diaChiID'' None,
      cn_gioiTinh = get_text (Some ca_nhan) ''gioiTinh'' None,
      cn_phienBan = get_text (Some ca_nhan) ''phienBan'' None,
      cn_giay_to_info = first_giay_to ca_nhan\<rparr>"

fun canhan_loop :: "element list \<Rightarrow> canhan list" where
  "canhan_loop [] = []"
| "canhan_loop (ca_nhan # rest) =
     (let ca_nhan_id = get_text (Some ca_nhan) ''caNhanID'' None
      in if \<not> truthy ca_nhan_id then canhan_loop rest
         else canhan_record ca_nhan (the ca_nhan_id) # canhan_loop rest)"

definition extract_canhan_data :: "element \<Rightarrow> canhan list" where
  "extract_canhan_data root =
     (let ca_nhan_collection = find_desc root ''CaNhanCollection''
      in if elem_truthy ca_nhan_collection
         then canhan_loop (elem_findall (the ca_nhan_collection) ''CaNhan'')
         else [])"

section \<open>\<open>extract_giaychungnhan_data\<close>\<close>

fun gcn_loop :: "element list \<Rightarrow> giaychungnhan list" where
  "gcn_loop [] = []"
| "gcn_loop (gcn # rest) =
     (let gcn_id = get_text (Some gcn) ''giayChungNhanID'' None
      in if \<not> truthy gcn_id then gcn_loop rest
         else
           \<lparr>gcn_giayChungNhanID = the gcn_id,
            gcn_soVaoSo = get_text (Some gcn) ''soVaoSo'' None,
            gcn_soPhatHanh = get_text (Some gcn) ''soPhatHanh'' None,
            gcn_MaGiayChungNhan = get_text (Some gcn) ''MaGiayChungNhan'' None,
            gcn_ngayCap = parse_timestamp (get_text (Some gcn) ''ngayCap'' (Some [])),
            gcn_maVach = get_text (Some gcn) ''maVach'' None,
            gcn_nguoiKy = get_text (Some gcn) ''nguoiKy'' None,
            gcn_soVaoSoCu = get_text (Some gcn) ''soVaoSoCu'' None\<rparr>
           # gcn_loop rest)"

definition extract_giaychungnhan_data :: "element \<Rightarrow> giaychungnhan list" where
  "extract_giaychungnhan_data root =
     (let gcn_collection = find_desc root ''GiayChungNhanCollection''
      in if elem_truthy gcn_collection
         then gcn_loop (elem_findall (the gcn_collection) ''GiayChungNhan'')
         else [])"

section \<open>\<open>extract_hoso_data\<close>\<close>

text \<open>
  The inner loop over the components of one case, which hands its four captured
  fields to every record.
\<close>

fun thanh_phan_loop ::
  "string option \<Rightarrow> string option \<Rightarrow> string option \<Rightarrow> string option \<Rightarrow>
   element list \<Rightarrow> hoso list" where
  "thanh_phan_loop hoso_id gcn_id ma_hoso_luu_tru ma_dvhc_xa [] = []"
| "thanh_phan_loop hoso_id gcn_id ma_hoso_luu_tru ma_dvhc_xa (thanh_phan # rest) =
     (let thanh_phan_id = get_text (Some thanh_phan) ''thanhPhanHoSoID'' None
      in if \<not> truthy thanh_phan_id
         then thanh_phan_loop hoso_id gcn_id ma_hoso_luu_tru ma_dvhc_xa rest
         else
           \<lparr>hs_thanhPhanHoSoID = the thanh_phan_id,
            hs_hoSoDangKySoID = hoso_id,
            hs_giayChungNhanID = gcn_id,
            hs_loaiGiayTo = get_text (Some thanh_phan) ''loaiGiayTo'' None,
            hs_tepTin = get_text (Some thanh_phan) ''tepTin'' None,
            hs_url = get_text (Some thanh_phan) ''url'' None,
            hs_maHoSoLuuTru = ma_hoso_luu_tru,
            hs_maDVHCXa = ma_dvhc_xa\<rparr>
           # thanh_phan_loop hoso_id gcn_id ma_hoso_luu_tru ma_dvhc_xa rest)"

text \<open>The records one case node contributes.\<close>

definition hoso_records :: "element \<Rightarrow> hoso list" where
  "hoso_records hoso =
     (let hoso_id = get_text (Some hoso) ''hoSoDangKySoID'' None;
          gcn_id = get_text (Some hoso) ''giayChungNhanID'' None;
          ma_hoso_luu_tru = get_text (Some hoso) ''maHoSoLuuTru'' None;
          ma_dvhc_xa = get_text (Some hoso) ''maDVHCXa'' None;
          thanh_phan_collection = elem_find hoso ''ThanhPhanHoSoDangKyDatDaiCollection''
      in if elem_truthy thanh_phan_collection
         then thanh_phan_loop hoso_id gcn_id ma_hoso_luu_tru ma_dvhc_xa
                (elem_findall (the thanh_phan_collection) ''ThanhPhanHoSoDangKyDatDai'')
         else [])"

fun hoso_loop :: "element list \<Rightarrow> hoso list" where
  "hoso_loop [] = []"
| "hoso_loop (hoso # rest) = hoso_records hoso @ hoso_loop rest"

definition extract_hoso_data :: "element \<Rightarrow> hoso list" where
  "extract_hoso_data root =
     (let hoso_collection = find_desc root ''HoSoDangKyDatDaiCollection''
      in if elem_truthy hoso_collection
         then hoso_loop (elem_findall (the hoso_collection) ''HoSoDangKyDatDai'')
         else [])"

section \<open>The relational store\<close>

text \<open>
  The four tables of \<open>DatabaseSchema.create_tables\<close>, each a list of rows with distinct
  primary keys, in insertion order.
\<close>

record store =
  tbl_thuadat :: "thuadat list"
  tbl_canhan :: "canhan list"
  tbl_giaychungnhan :: "giaychungnhan list"
  tbl_hoso :: "hoso list"

text \<open>
  The errors of the store: a value that does not fit its column, a broken foreign key, a
  query the server fails, and a statement sent while the transaction is aborted.
\<close>

datatype db_error = DataError | ForeignKeyViolation | QueryFailed | InFailedSqlTransaction

text \<open>
  What the store decides on its own: whether a row fits the column types and lengths of its
  table (a numeric column rejects text that is no number, a \<open>VARCHAR(50)\<close> a longer
  string), and whether the existence query of \<open>insert_hoso\<close> raises.
\<close>

record dbms =
  typed_thuadat :: "thuadat \<Rightarrow> bool"
  typed_canhan :: "canhan \<Rightarrow> bool"
  typed_giaychungnhan :: "giaychungnhan \<Rightarrow> bool"
  typed_hoso :: "hoso \<Rightarrow> bool"
  select_raises :: bool

text \<open>
  A connection (psycopg2 without autocommit): the state the last commit left, the state the
  open transaction works on, whether a statement has failed in this transaction, and the
  lines printed so far. Once a statement has failed the transaction is aborted: the server
  refuses every further statement until the rollback, and a commit then rolls back.
\<close>

record connection =
  committed :: store
  working :: store
  aborted :: bool
  printed :: "string list"

definition rollback :: "connection \<Rightarrow> connection" where
  "rollback conn = conn\<lparr>working := committed conn, aborted := False\<rparr>"

definition commit :: "connection \<Rightarrow> connection" where
  "commit conn = (if aborted conn then rollback conn else conn\<lparr>committed := working conn\<rparr>)"

definition print :: "string \<Rightarrow> connection \<Rightarrow> connection" where
  "print line conn = conn\<lparr>printed := printed conn @ [line]\<rparr>"

text \<open>A foreign key column holds null or a key of the referenced table.\<close>

definition references :: "string option \<Rightarrow> string list \<Rightarrow> bool" where
  "references v keys = (case v of None \<Rightarrow> True | Some k \<Rightarrow> k \<in> set keys)"

text \<open>
  One \<open>INSERT ... ON CONFLICT (key) DO NOTHING\<close> statement per kind: the values are
  converted to the column types, a row whose key is present is skipped (0 rows), and a new
  row has its foreign keys checked and is stored (1 row).
\<close>

definition insert_thuadat_row :: "dbms \<Rightarrow> store \<Rightarrow> thuadat \<Rightarrow> db_error + (store \<times> int)" where
  "insert_thuadat_row db st row =
     (if \<not> typed_thuadat db row then Inl DataError
      else if td_thuaDatID row \<in> set (map td_thuaDatID (tbl_thuadat st)) then Inr (st, 0)
      else if \<not> (references (td_voID row) (map cn_caNhanID (tbl_canhan st))
                 \<and> references (td_chongID row) (map cn_caNhanID (tbl_canhan st)))
      then Inl ForeignKeyViolation
      else Inr (st\<lparr>tbl_thuadat := tbl_thuadat st @ [row]\<rparr>, 1))"

definition insert_canhan_row :: "dbms \<Rightarrow> store \<Rightarrow> canhan \<Rightarrow> db_error + (store \<times> int)" where
  "insert_canhan_row db st row =
     (if \<not> typed_canhan db row then Inl DataError
      else if cn_caNhanID row \<in> set (map cn_caNhanID (tbl_canhan st)) then Inr (st, 0)
      else Inr (st\<lparr>tbl_canhan := tbl_canhan st @ [row]\<rparr>, 1))"

definition insert_giaychungnhan_row ::
  "dbms \<Rightarrow> store \<Rightarrow> giaychungnhan \<Rightarrow> db_error + (store \<times> int)" where
  "insert_giaychungnhan_row db st row =
     (if \<not> typed_giaychungnhan db row then Inl DataError
      else if gcn_giayChungNhanID row \<in> set (map gcn_giayChungNhanID (tbl_giaychungnhan st))
      then Inr (st, 0)
      else Inr (st\<lparr>tbl_giaychungnhan := tbl_giaychungnhan st @ [row]\<rparr>, 1))"

definition insert_hoso_row :: "dbms \<Rightarrow> store \<Rightarrow> hoso \<Rightarrow> db_error + (store \<times> int)" where
  "insert_hoso_row db st row =
     (if \<not> typed_hoso db row then Inl DataError
      else if hs_thanhPhanHoSoID row \<in> set (map hs_thanhPhanHoSoID (tbl_hoso st))
      then Inr (st, 0)
      else if \<not> references (hs_giayChungNhanID row)
                  (map gcn_giayChungNhanID (tbl_giaychungnhan st))
      then Inl ForeignKeyViolation
      else Inr (st\<lparr>tbl_hoso := tbl_hoso st @ [row]\<rparr>, 1))"

text \<open>
  The statements of a batch on the store: one per row, in order, up to the first one that
  raises. The \<open>rowcount\<close> afterwards is that of the last statement run (the third
  argument carries it along).
\<close>

fun execute_batch ::
  "(store \<Rightarrow> 'r \<Rightarrow> db_error + (store \<times> int)) \<Rightarrow> store \<Rightarrow> 'r list \<Rightarrow> int \<Rightarrow>
   (db_error + int) \<times> store" where
  "execute_batch stmt st [] rowcount = (Inr rowcount, st)"
| "execute_batch stmt st (row # rest) rowcount =
     (case stmt st row of
        Inl e \<Rightarrow> (Inl e, st)
      | Inr (st', n) \<Rightarrow> execute_batch stmt st' rest n)"

text \<open>
  \<open>execute_batch(cursor, query, data_list)\<close> on a connection: in an aborted transaction
  the first statement raises at once; otherwise the statements run on the working state,
  and one that raises aborts the transaction. An empty batch sends nothing.
\<close>

definition cursor_execute_batch ::
  "(store \<Rightarrow> 'r \<Rightarrow> db_error + (store \<times> int)) \<Rightarrow> connection \<Rightarrow> 'r list \<Rightarrow>
   (db_error + int) \<times> connection" where
  "cursor_execute_batch stmt conn data_list =
     (if aborted conn \<and> data_list \<noteq> [] then (Inl InFailedSqlTransaction, conn)
      else
        (case execute_batch stmt (working conn) data_list (- 1) of
           (Inr rowcount, st) \<Rightarrow> (Inr rowcount, conn\<lparr>working := st\<rparr>)
         | (Inl e, st) \<Rightarrow> (Inl e, conn\<lparr>working := st, aborted := True\<rparr>)))"

text \<open>
  \<open>SELECT giayChungNhanID FROM giaychungnhan WHERE giayChungNhanID IN (...)\<close>: the keys of
  the certificate table among those asked for. A query that raises aborts the transaction,
  like any failed statement.
\<close>

definition select_giaychungnhan_ids ::
  "dbms \<Rightarrow> connection \<Rightarrow> string set \<Rightarrow> (db_error + string list) \<times> connection" where
  "select_giaychungnhan_ids db conn ids =
     (if aborted conn then (Inl InFailedSqlTransaction, conn)
      else if select_raises db then (Inl QueryFailed, conn\<lparr>aborted := True\<rparr>)
      else
        (Inr (filter (\<lambda>k. k \<in> ids)
                (map gcn_giayChungNhanID (tbl_giaychungnhan (working conn)))),
         conn))"

section \<open>\<open>DatabaseInserter\<close>\<close>

text \<open>
  The \<open>try\<close> block the four insert methods share: run the batch and report
  \<open>(inserted, skipped)\<close>; on any error print it, roll back and report the whole batch as
  skipped.
\<close>

definition try_execute_batch ::
  "(store \<Rightarrow> 'r \<Rightarrow> db_error + (store \<times> int)) \<Rightarrow> string \<Rightarrow> connection \<Rightarrow> 'r list \<Rightarrow>
   connection \<times> (int \<times> int)" where
  "try_execute_batch stmt name conn data_list =
     (case cursor_execute_batch stmt conn data_list of
        (Inr inserted, conn1) \<Rightarrow>
          (conn1, (inserted, int (length data_list) - inserted))
      | (Inl e, conn1) \<Rightarrow>
          (rollback (print (''Error inserting '' @ name) conn1),
           (0, int (length data_list))))"

definition insert_thuadat ::
  "dbms \<Rightarrow> connection \<Rightarrow> thuadat list \<Rightarrow> connection \<times> (int \<times> int)" where
  "insert_thuadat db conn data_list =
     (if data_list = [] then (conn, (0, 0))
      else try_execute_batch (insert_thuadat_row db) ''thuadat'' conn data_list)"

definition insert_canhan ::
  "dbms \<Rightarrow> connection \<Rightarrow> canhan list \<Rightarrow> connection \<times> (int \<times> int)" where
  "insert_canhan db conn data_list =
     (if data_list = [] then (conn, (0, 0))
      else try_execute_batch (insert_canhan_row db) ''canhan'' conn data_list)"

definition insert_giaychungnhan ::
  "dbms \<Rightarrow> connection \<Rightarrow> giaychungnhan list \<Rightarrow> connection \<times> (int \<times> int)" where
  "insert_giaychungnhan db conn data_list =
     (if data_list = [] then (conn, (0, 0))
      else try_execute_batch (insert_giaychungnhan_row db) ''giaychungnhan'' conn data_list)"

text \<open>The certificate references of a batch that are neither null nor empty.\<close>

definition unique_gcn_ids :: "hoso list \<Rightarrow> string set" where
  "unique_gcn_ids data_list =
     set (map (\<lambda>d. the (hs_giayChungNhanID d))
            (filter (\<lambda>d. truthy (hs_giayChungNhanID d)) data_list))"

text \<open>
  The existence check: the references found in the store, all of them when the query
  raises (with a warning printed, and no rollback), none when the batch has no reference.
\<close>

definition valid_gcn_ids :: "dbms \<Rightarrow> connection \<Rightarrow> hoso list \<Rightarrow> connection \<times> string set" where
  "valid_gcn_ids db conn data_list =
     (if unique_gcn_ids data_list \<noteq> {} then
        (case select_giaychungnhan_ids db conn (unique_gcn_ids data_list) of
           (Inr rows, conn1) \<Rightarrow> (conn1, set rows)
         | (Inl e, conn1) \<Rightarrow>
             (print ''Warning: Could not verify giayChungNhanID existence'' conn1,
              unique_gcn_ids data_list))
      else (conn, {}))"

text \<open>The loop that sets the references not found to null, in place.\<close>

fun nullify_invalid :: "string set \<Rightarrow> hoso list \<Rightarrow> hoso list" where
  "nullify_invalid valid [] = []"
| "nullify_invalid valid (d # rest) =
     (let gcn_id = hs_giayChungNhanID d
      in (if truthy gcn_id \<and> the gcn_id \<notin> valid then d\<lparr>hs_giayChungNhanID := None\<rparr> else d)
         # nullify_invalid valid rest)"

text \<open>\<open>insert_hoso\<close> also returns the batch as the loop left it.\<close>

definition insert_hoso ::
  "dbms \<Rightarrow> connection \<Rightarrow> hoso list \<Rightarrow> connection \<times> hoso list \<times> (int \<times> int)" where
  "insert_hoso db conn data_list =
     (if data_list = [] then (conn, data_list, (0, 0))
      else
        (let (conn1, valid) = valid_gcn_ids db conn data_list;
             data_list1 = nullify_invalid valid data_list;
             (conn2, counts) = try_execute_batch (insert_hoso_row db) ''hoso'' conn1 data_list1
         in (conn2, data_list1, counts)))"

section \<open>The load of one document\<close>

text \<open>
  The part of \<open>process_single_file_worker\<close> after the extraction: the four inserts in
  their order, then the commit; the counts are returned per kind.
\<close>

record file_stats =
  thuadat_counts :: "int \<times> int"
  canhan_counts :: "int \<times> int"
  giaychungnhan_counts :: "int \<times> int"
  hoso_counts :: "int \<times> int"

definition load_document ::
  "dbms \<Rightarrow> connection \<Rightarrow> thuadat list \<Rightarrow> canhan list \<Rightarrow> giaychungnhan list \<Rightarrow> hoso list \<Rightarrow>
   connection \<times> file_stats" where
  "load_document db conn thuadat_data canhan_data gcn_data hoso_data =
     (let (conn1, cn) = insert_canhan db conn canhan_data;
          (conn2, gcn) = insert_giaychungnhan db conn1 gcn_data;
          (conn3, td) = insert_thuadat db conn2 thuadat_data;
          (conn4, hoso_data1, hs) = insert_hoso db conn3 hoso_data
      in (commit conn4,
          \<lparr>thuadat_counts = td, canhan_counts = cn,
           giaychungnhan_counts = gcn, hoso_counts = hs\<rparr>))"

section \<open>Notions of the specification\<close>

text \<open>
  A field of a node is absent when the node has no child with that tag, or the first such
  child has no text; it is present with the text \<open>v\<close> when that child's text is the
  non-empty string \<open>v\<close>.
\<close>

definition field_absent :: "element \<Rightarrow> string \<Rightarrow> bool" where
  "field_absent e t = (case elem_find e t of None \<Rightarrow> True | Some c \<Rightarrow> \<not> truthy (elem_text c))"

definition field_present :: "element \<Rightarrow> string \<Rightarrow> string \<Rightarrow> bool" where
  "field_present e t v =
     (case elem_find e t of None \<Rightarrow> False | Some c \<Rightarrow> elem_text c = Some v \<and> v \<noteq> [])"

text \<open>The date the first format of an ordered list that parses the text gives.\<close>

definition first_match :: "string list \<Rightarrow> string \<Rightarrow> datetime option" where
  "first_match fmts s =
     (case filter (\<lambda>fmt. \<not> isl (strptime s fmt)) fmts of
        [] \<Rightarrow> None
      | fmt # _ \<Rightarrow> Some (projr (strptime s fmt)))"

text \<open>
  A usage-right node qualifies for a parcel when its parcel reference is the parcel's
  identifier and its subject reference is a key of the owner-pair map.
\<close>

definition qualifies :: "(string \<rightharpoonup> vo_chong_info) \<Rightarrow> string \<Rightarrow> element \<Rightarrow> bool" where
  "qualifies vo_chong_map thua_dat_id q =
     (get_text (Some q) ''thuaDatID'' None = Some thua_dat_id \<and>
      (case get_text (Some q) ''doiTuongID'' None of
         None \<Rightarrow> False
       | Some k \<Rightarrow> vo_chong_map k \<noteq> None))"

text \<open>The three owner fields of a parcel record, and the three values of an owner pair.\<close>

definition owner_fields :: "thuadat \<Rightarrow> string option \<times> string option \<times> string option" where
  "owner_fields r = (td_voChongID r, td_voID r, td_chongID r)"

definition pair_values :: "vo_chong_info \<Rightarrow> string option \<times> string option \<times> string option" where
  "pair_values pr = (voChongID pr, voID pr, chongID pr)"

text \<open>The values an owner-pair node carries.\<close>

definition pair_of_node :: "element \<Rightarrow> vo_chong_info" where
  "pair_of_node vc = \<lparr>voChongID = get_text (Some vc) ''voChongID'' None,
      voID = get_text (Some vc) ''voID'' None, chongID = get_text (Some vc) ''chongID'' None\<rparr>"

text \<open>The owner-pair nodes of the document: the children of its owner-pair collection.\<close>

definition owner_pair_nodes :: "element \<Rightarrow> element list" where
  "owner_pair_nodes root =
     (case find_desc root ''VoChongCollection'' of
        None \<Rightarrow> []
      | Some c \<Rightarrow> elem_findall c ''VoChong'')"

text \<open>
  A parcel \<open>P\<close>, an owner pair \<open>O\<close> of the persons \<open>A\<close> and \<open>B\<close>, and a usage right that
  links \<open>O\<close> to \<open>P\<close>.
\<close>

definition doc_owned :: element where
  "doc_owned =
     Element ''root'' None
       [Element ''ThuaDatCollection'' None
          [Element ''DC_ThuaDat'' None [Element ''thuaDatID'' (Some ''P'') []]],
        Element ''VoChongCollection'' None
          [Element ''VoChong'' None
             [Element ''voChongID'' (Some ''O'') [],
              Element ''voID'' (Some ''A'') [],
              Element ''chongID'' (Some ''B'') []]],
        Element ''QuyenSuDungDat'' None
          [Element ''thuaDatID'' (Some ''P'') [],
           Element ''doiTuongID'' (Some ''O'') []]]"

text \<open>A component child has a component identifier when the reader finds a non-empty one.\<close>

definition has_component_id :: "element \<Rightarrow> bool" where
  "has_component_id thanh_phan = truthy (get_text (Some thanh_phan) ''thanhPhanHoSoID'' None)"

text \<open>The component children of a case node: those of its component sub-collection.\<close>

definition case_components :: "element \<Rightarrow> element list" where
  "case_components hoso =
     (case elem_find hoso ''ThanhPhanHoSoDangKyDatDaiCollection'' of
        None \<Rightarrow> []
      | Some c \<Rightarrow> elem_findall c ''ThanhPhanHoSoDangKyDatDai'')"

text \<open>
  A case without a case identifier, with one component that has an identifier and one that
  has none.
\<close>

definition case_no_id :: element where
  "case_no_id =
     Element ''HoSoDangKyDatDai'' None
       [Element ''giayChungNhanID'' (Some ''G1'') [],
        Element ''ThanhPhanHoSoDangKyDatDaiCollection'' None
          [Element ''ThanhPhanHoSoDangKyDatDai'' None
             [Element ''thanhPhanHoSoID'' (Some ''TP1'') [],
              Element ''tepTin'' (Some ''a.pdf'') []],
           Element ''ThanhPhanHoSoDangKyDatDai'' None
             [Element ''tepTin'' (Some ''b.pdf'') []]]]"

definition doc_case_no_id :: element where
  "doc_case_no_id =
     Element ''root'' None [Element ''HoSoDangKyDatDaiCollection'' None [case_no_id]]"

text \<open>A case whose identifier element holds two spaces, with one component.\<close>

definition case_blank_id :: element where
  "case_blank_id =
     Element ''HoSoDangKyDatDai'' None
       [Element ''hoSoDangKySoID'' (Some ''  '') [],
        Element ''ThanhPhanHoSoDangKyDatDaiCollection'' None
          [Element ''ThanhPhanHoSoDangKyDatDai'' None
             [Element ''thanhPhanHoSoID'' (Some ''TP1'') [],
              Element ''tepTin'' (Some ''a.pdf'') []]]]"

definition doc_case_blank_id :: element where
  "doc_case_blank_id =
     Element ''root'' None [Element ''HoSoDangKyDatDaiCollection'' None [case_blank_id]]"

text \<open>Two identity documents.\<close>

definition giay_to_1 :: element where
  "giay_to_1 =
     Element ''GiayToTuyThan'' None
       [Element ''giayToTuyThanID'' (Some ''D1'') [],
        Element ''soGiayTo'' (Some ''001'') [],
        Element ''ngayCap'' (Some ''15/03/2020'') []]"

definition giay_to_2 :: element where
  "giay_to_2 =
     Element ''GiayToTuyThan'' None
       [Element ''giayToTuyThanID'' (Some ''D2'') [],
        Element ''soGiayTo'' (Some ''002'') []]"

text \<open>
  An identity document that holds a usage-right node, which links the parcel \<open>P\<close> to the
  owner pair \<open>O\<close>.
\<close>

definition giay_to_nested :: element where
  "giay_to_nested =
     Element ''GiayToTuyThan'' None
       [Element ''giayToTuyThanID'' (Some ''D2'') [],
        Element ''QuyenSuDungDat'' None
          [Element ''thuaDatID'' (Some ''P'') [],
           Element ''doiTuongID'' (Some ''O'') []]]"

text \<open>
  A person with the given identity documents, and a document of that person, a parcel
  \<open>P\<close> and an owner pair \<open>O\<close>, with no usage right of its own.
\<close>

definition person_with_identity_docs :: "element list \<Rightarrow> element" where
  "person_with_identity_docs ds =
     Element ''CaNhan'' None
       [Element ''caNhanID'' (Some ''A'') [],
        Element ''GiayToTuyThanCollection'' None ds]"

definition doc_with_identity_docs :: "element list \<Rightarrow> element" where
  "doc_with_identity_docs ds =
     Element ''root'' None
       [Element ''CaNhanCollection'' None [person_with_identity_docs ds],
        Element ''ThuaDatCollection'' None
          [Element ''DC_ThuaDat'' None [Element ''thuaDatID'' (Some ''P'') []]],
        Element ''VoChongCollection'' None
          [Element ''VoChong'' None
             [Element ''voChongID'' (Some ''O'') [],
              Element ''voID'' (Some ''A'') [],
              Element ''chongID'' (Some ''B'') []]]]"

text \<open>
  A store that accepts every row's types and answers the existence query, one whose
  existence query raises, and one that rejects every row's types.
\<close>

definition db_ok :: dbms where
  "db_ok = \<lparr>typed_thuadat = (\<lambda>_. True), typed_canhan = (\<lambda>_. True),
            typed_giaychungnhan = (\<lambda>_. True), typed_hoso = (\<lambda>_. True),
            select_raises = False\<rparr>"

definition db_select_raises :: dbms where
  "db_select_raises = db_ok\<lparr>select_raises := True\<rparr>"

definition db_reject :: dbms where
  "db_reject = \<lparr>typed_thuadat = (\<lambda>_. False), typed_canhan = (\<lambda>_. False),
                typed_giaychungnhan = (\<lambda>_. False), typed_hoso = (\<lambda>_. False),
                select_raises = False\<rparr>"

definition conn_empty :: connection where
  "conn_empty =
     \<lparr>committed = \<lparr>tbl_thuadat = [], tbl_canhan = [], tbl_giaychungnhan = [], tbl_hoso = []\<rparr>,
      working = \<lparr>tbl_thuadat = [], tbl_canhan = [], tbl_giaychungnhan = [], tbl_hoso = []\<rparr>,
      aborted = False, printed = []\<rparr>"

text \<open>A component that refers to the certificate \<open>G9\<close>.\<close>

definition comp_dangling :: hoso where
  "comp_dangling =
     \<lparr>hs_thanhPhanHoSoID = ''TP1'', hs_hoSoDangKySoID = Some ''H1'',
      hs_giayChungNhanID = Some ''G9'', hs_loaiGiayTo = None, hs_tepTin = Some ''a.pdf'',
      hs_url = None, hs_maHoSoLuuTru = None, hs_maDVHCXa = None\<rparr>"

text \<open>
  A document with two persons, the parcel they own, a certificate and a case with two
  components.
\<close>

definition doc_full :: element where
  "doc_full =
     Element ''root'' None
       [Element ''ThuaDatCollection'' None
          [Element ''DC_ThuaDat'' None [Element ''thuaDatID'' (Some ''P'') []]],
        Element ''CaNhanCollection'' None
          [Element ''CaNhan'' None [Element ''caNhanID'' (Some ''A'') []],
           Element ''CaNhan'' None [Element ''caNhanID'' (Some ''B'') []]],
        Element ''VoChongCollection'' None
          [Element ''VoChong'' None
             [Element ''voChongID'' (Some ''O'') [],
              Element ''voID'' (Some ''A'') [],
              Element ''chongID'' (Some ''B'') []]],
        Element ''QuyenSuDungDat'' None
          [Element ''thuaDatID'' (Some ''P'') [],
           Element ''doiTuongID'' (Some ''O'') []],
        Element ''GiayChungNhanCollection'' None
          [Element ''GiayChungNhan'' None [Element ''giayChungNhanID'' (Some ''G1'') []]],
        Element ''HoSoDangKyDatDaiCollection'' None
          [Element ''HoSoDangKyDatDai'' None
             [Element ''hoSoDangKySoID'' (Some ''H1'') [],
              Element ''giayChungNhanID'' (Some ''G1'') [],
              Element ''ThanhPhanHoSoDangKyDatDaiCollection'' None
                [Element ''ThanhPhanHoSoDangKyDatDai'' None
                   [Element ''thanhPhanHoSoID'' (Some ''TP1'') []],
                 Element ''ThanhPhanHoSoDangKyDatDai'' None
                   [Element ''thanhPhanHoSoID'' (Some ''TP2'') []]]]]]"

text \<open>The connection after the document has been loaded once into an empty store.\<close>

definition conn_loaded :: connection where
  "conn_loaded =
     fst (load_document db_ok conn_empty (extract_thuadat_data doc_full)
            (extract_canhan_data doc_full) (extract_giaychungnhan_data doc_full)
            (extract_hoso_data doc_full))"

section \<open>Properties of the field readers\<close>

lemma rstrip_keeps_head:
  assumes "t \<noteq> []" "\<not> P (hd t)"
  shows "dropWhile P (rev (dropWhile P (rev t))) = rev (dropWhile P (rev t))"
proof -
  obtain x t' where t: "t = x # t'" using assms(1) by (cases t) auto
  have nx: "\<not> P x" using assms(2) t by simp
  have "dropWhile P (rev t' @ [x]) = dropWhile P (rev t') @ [x]"
    using nx by (simp add: dropWhile_append)
  then have "rev (dropWhile P (rev t)) = x # rev (dropWhile P (rev t'))"
    using t by simp
  then show ?thesis using nx by simp
qed

lemma strip_idem: "strip (strip s) = strip s"
proof (cases "lstrip s = []")
  case True
  then have a: "strip s = []" by (simp add: strip_def rstrip_def)
  have b: "strip [] = []" by (simp add: strip_def rstrip_def lstrip_def)
  show ?thesis by (simp only: a b)
next
  case False
  then have h: "\<not> isspace (hd (lstrip s))" by (simp add: lstrip_def hd_dropWhile)
  have "lstrip (rstrip (lstrip s)) = rstrip (lstrip s)"
    unfolding rstrip_def
    using rstrip_keeps_head [of "lstrip s" isspace, OF False h] by (simp add: lstrip_def)
  then show ?thesis by (simp add: strip_def rstrip_def)
qed

lemma get_text_present:
  "field_present e t v \<Longrightarrow> get_text (Some e) t d = Some (strip v)"
  by (auto simp: field_present_def get_text_def truthy_def split: option.splits)

lemma get_text_absent:
  "field_absent e t \<Longrightarrow> get_text (Some e) t d = d"
  by (auto simp: field_absent_def get_text_def split: option.splits)

lemma parse_boolean_value:
  "strip v \<noteq> [] \<Longrightarrow>
   parse_boolean (Some (strip v)) = Some (lower (strip v) \<in> set [''true'', ''1'', ''yes''])"
  by (simp add: parse_boolean_def truthy_def strip_idem)

text \<open>
  Claim C6 says that the field-text reader never returns an empty string: for every element
  text the result is null or a non-empty trimmed string. The reader tests the text before
  it trims it, so a field whose text is only whitespace comes back as the empty string.
\<close>

theorem get_text_blank_is_empty_string:
  "get_text (Some (Element ''DC_ThuaDat'' None [Element ''dienTich'' (Some ''   '') []]))
     ''dienTich'' None = Some []"
  by code_simp

text \<open>
  Claim C5, as stated, has the Parcel validity flag null when its element is absent. A
  parcel node with an identifier and no \<open>hieuLuc\<close> child extracts with the flag true.
\<close>

theorem parcel_flag_absent_counterexample:
  "map td_hieuLuc
     (extract_thuadat_data
        (Element ''root'' None
           [Element ''ThuaDatCollection'' None
              [Element ''DC_ThuaDat'' None [Element ''thuaDatID'' (Some ''P1'') []]]]))
   = [Some True]"
  by code_simp

text \<open>
  Claim C5, amended: for both boolean fields (the Parcel validity flag and the
  identity-document validity flag), a present value that is not blank yields true when its
  trimmed, lower-cased text is one of \<open>true\<close>, \<open>1\<close>, \<open>yes\<close>, and false otherwise; an absent
  value yields true for the Parcel flag and null for the identity-document flag.
\<close>

theorem boolean_fields:
  "(field_present e ''hieuLuc'' v \<and> strip v \<noteq> [] \<longrightarrow>
      td_hieuLuc (thuadat_record e i info)
        = Some (lower (strip v) \<in> set [''true'', ''1'', ''yes'']) \<and>
      hieuLuc (read_giay_to e) = Some (lower (strip v) \<in> set [''true'', ''1'', ''yes'']))
   \<and> (field_absent a ''hieuLuc'' \<longrightarrow>
      td_hieuLuc (thuadat_record a j info') = Some True \<and> hieuLuc (read_giay_to a) = None)"
proof (intro conjI impI)
  assume h: "field_present e ''hieuLuc'' v \<and> strip v \<noteq> []"
  then have g: "\<And>d. get_text (Some e) ''hieuLuc'' d = Some (strip v)"
    by (simp add: get_text_present)
  show "td_hieuLuc (thuadat_record e i info)
        = Some (lower (strip v) \<in> set [''true'', ''1'', ''yes''])"
    using h by (simp add: thuadat_record_def g parse_boolean_value)
  show "hieuLuc (read_giay_to e) = Some (lower (strip v) \<in> set [''true'', ''1'', ''yes''])"
    using h by (simp add: read_giay_to_def g parse_boolean_value)
next
  assume h: "field_absent a ''hieuLuc''"
  then have g: "\<And>d. get_text (Some a) ''hieuLuc'' d = d" by (simp add: get_text_absent)
  have t: "parse_boolean (Some ''true'') = Some True" by code_simp
  show "td_hieuLuc (thuadat_record a j info') = Some True"
    by (simp add: thuadat_record_def g t)
  show "hieuLuc (read_giay_to a) = None"
    by (simp add: read_giay_to_def g parse_boolean_def truthy_def)
qed

text \<open>
  The amended claim C5 at a parcel node whose flag reads \<open>Yes\<close> between spaces, and at a
  node without the element.
\<close>

theorem boolean_fields_witness:
  "field_present (Element ''DC_ThuaDat'' None [Element ''hieuLuc'' (Some '' Yes '') []])
     ''hieuLuc'' '' Yes ''
   \<and> strip '' Yes '' \<noteq> []
   \<and> td_hieuLuc (thuadat_record
        (Element ''DC_ThuaDat'' None [Element ''hieuLuc'' (Some '' Yes '') []]) ''P1''
        \<lparr>voChongID = None, voID = None, chongID = None\<rparr>) = Some True
   \<and> hieuLuc (read_giay_to
        (Element ''DC_ThuaDat'' None [Element ''hieuLuc'' (Some '' Yes '') []])) = Some True
   \<and> field_absent (Element ''GiayToTuyThan'' None []) ''hieuLuc''
   \<and> td_hieuLuc (thuadat_record (Element ''GiayToTuyThan'' None []) ''P2''
        \<lparr>voChongID = None, voID = None, chongID = None\<rparr>) = Some True
   \<and> hieuLuc (read_giay_to (Element ''GiayToTuyThan'' None [])) = None"
proof -
  have h1: "field_present (Element ''DC_ThuaDat'' None [Element ''hieuLuc'' (Some '' Yes '') []])
     ''hieuLuc'' '' Yes ''" by code_simp
  have h2: "strip '' Yes '' \<noteq> []" by code_simp
  have h3: "field_absent (Element ''GiayToTuyThan'' None []) ''hieuLuc''" by code_simp
  have v: "(lower (strip '' Yes '') \<in> set [''true'', ''1'', ''yes'']) = True" by code_simp
  show ?thesis
    using boolean_fields [of "Element ''DC_ThuaDat'' None [Element ''hieuLuc'' (Some '' Yes '') []]"
        "'' Yes ''" "''P1''" "\<lparr>voChongID = None, voID = None, chongID = None\<rparr>"
        "Element ''GiayToTuyThan'' None []" "''P2''"
        "\<lparr>voChongID = None, voID = None, chongID = None\<rparr>"] h1 h2 h3
    by (simp only: v) simp
qed

section \<open>Properties of the date parsers\<close>

lemma try_formats_first_match: "try_formats fmts s = first_match fmts s"
proof (induction fmts)
  case Nil
  then show ?case by (simp add: first_match_def)
next
  case (Cons fmt fmts)
  show ?case
  proof (cases "strptime s fmt")
    case (Inl e)
    then show ?thesis using Cons by (cases e) (simp add: first_match_def)
  next
    case (Inr dt)
    then show ?thesis by (simp add: first_match_def)
  qed
qed

text \<open>
  Claim C7, as stated, has the date-only parser try exactly \<open>YYYY-MM-DD\<close> and
  \<open>DD/MM/YYYY\<close>. A text with a time of day matches neither of the two, and the parser
  still returns its date: it also tries \<open>YYYY-MM-DD HH:MM:SS\<close>.
\<close>

theorem date_formats_counterexample:
  "first_match [''%Y-%m-%d'', ''%d/%m/%Y''] (strip ''2020-03-15 10:20:30'') = None
   \<and> parse_date (Some ''2020-03-15 10:20:30'') = Some ''2020-03-15''"
  by code_simp

text \<open>
  Claim C7, amended: the date-only parser returns the date of the first of the formats
  \<open>YYYY-MM-DD\<close>, \<open>YYYY-MM-DD HH:MM:SS\<close>, \<open>DD/MM/YYYY\<close> that parses the trimmed text, and
  the timestamp parser that of the first of \<open>YYYY-MM-DD HH:MM:SS\<close>, \<open>YYYY-MM-DD\<close>; a text
  that none of the parser's formats parses yields null, not an error; \<open>15/03/2020\<close> and
  \<open>2020-03-15\<close> give the same normalized value, and \<open>not-a-date\<close> gives null.
\<close>

theorem parse_date_formats:
  "parse_date v =
     (if \<not> truthy v then None
      else map_option (\<lambda>dt. strftime dt ''%Y-%m-%d'')
             (first_match [''%Y-%m-%d'', ''%Y-%m-%d %H:%M:%S'', ''%d/%m/%Y''] (strip (the v))))
   \<and> parse_timestamp v =
     (if \<not> truthy v then None
      else map_option (\<lambda>dt. strftime dt ''%Y-%m-%d %H:%M:%S'')
             (first_match [''%Y-%m-%d %H:%M:%S'', ''%Y-%m-%d''] (strip (the v))))
   \<and> parse_date (Some ''15/03/2020'') = Some ''2020-03-15''
   \<and> parse_date (Some ''2020-03-15'') = Some ''2020-03-15''
   \<and> parse_date (Some ''not-a-date'') = None"
proof (intro conjI)
  show "parse_date v =
     (if \<not> truthy v then None
      else map_option (\<lambda>dt. strftime dt ''%Y-%m-%d'')
             (first_match [''%Y-%m-%d'', ''%Y-%m-%d %H:%M:%S'', ''%d/%m/%Y''] (strip (the v))))"
    unfolding parse_date_def try_formats_first_match by (simp split: option.splits)
  show "parse_timestamp v =
     (if \<not> truthy v then None
      else map_option (\<lambda>dt. strftime dt ''%Y-%m-%d %H:%M:%S'')
             (first_match [''%Y-%m-%d %H:%M:%S'', ''%Y-%m-%d''] (strip (the v))))"
    unfolding parse_timestamp_def try_formats_first_match by (simp split: option.splits)
  show "parse_date (Some ''15/03/2020'') = Some ''2020-03-15''" by code_simp
  show "parse_date (Some ''2020-03-15'') = Some ''2020-03-15''" by code_simp
  show "parse_date (Some ''not-a-date'') = None" by code_simp
qed

text \<open>The two spellings of 15 March 2020 parse to the same value.\<close>

theorem parse_date_formats_witness:
  "parse_date (Some ''15/03/2020'') = parse_date (Some ''2020-03-15'')"
  using parse_date_formats [of None] by simp

section \<open>Properties of the extraction\<close>

lemma thanh_phan_loop_ids:
  "map hs_thanhPhanHoSoID (thanh_phan_loop a b c d tps)
   = map (\<lambda>tp. the (get_text (Some tp) ''thanhPhanHoSoID'' None)) (filter has_component_id tps)"
  by (induction tps) (simp_all add: has_component_id_def Let_def)

lemma thanh_phan_loop_parent:
  "r \<in> set (thanh_phan_loop a b c d tps) \<Longrightarrow> hs_hoSoDangKySoID r = a"
  by (induction tps) (auto simp: Let_def split: if_splits)

lemma elem_findall_empty: "elem_children c = [] \<Longrightarrow> elem_findall c t = []"
  by (simp add: elem_findall_def)

lemma hoso_records_ids:
  "map hs_thanhPhanHoSoID (hoso_records h)
   = map (\<lambda>tp. the (get_text (Some tp) ''thanhPhanHoSoID'' None))
       (filter has_component_id (case_components h))"
  by (auto simp: hoso_records_def case_components_def Let_def elem_truthy_def
        thanh_phan_loop_ids elem_findall_empty split: option.splits)

lemma hoso_records_parent:
  "r \<in> set (hoso_records h) \<Longrightarrow> hs_hoSoDangKySoID r = get_text (Some h) ''hoSoDangKySoID'' None"
  by (auto simp: hoso_records_def Let_def dest: thanh_phan_loop_parent split: if_splits)

lemma hoso_loop_concat: "hoso_loop hs = concat (map hoso_records hs)"
  by (induction hs) simp_all

lemma elem_findall_children: "h \<in> set (elem_findall c t) \<Longrightarrow> elem_children c \<noteq> []"
  by (auto simp: elem_findall_def)

lemma extract_hoso_data_block:
  assumes "find_desc root ''HoSoDangKyDatDaiCollection'' = Some coll"
      and "h \<in> set (elem_findall coll ''HoSoDangKyDatDai'')"
  shows "\<exists>before after. extract_hoso_data root = before @ hoso_records h @ after"
proof -
  obtain hs1 hs2 where s: "elem_findall coll ''HoSoDangKyDatDai'' = hs1 @ h # hs2"
    using assms(2) by (auto dest: split_list)
  have "extract_hoso_data root = hoso_loop (elem_findall coll ''HoSoDangKyDatDai'')"
    using assms elem_findall_children [OF assms(2)]
    by (simp add: extract_hoso_data_def elem_truthy_def)
  then have "extract_hoso_data root
       = hoso_loop hs1 @ hoso_records h @ hoso_loop hs2"
    by (simp add: s hoso_loop_concat)
  then show ?thesis by blast
qed

text \<open>
  Every case node of the case collection contributes its records to the extracted list,
  one per component child that has a component identifier, in order; no test of the case's
  own identifier stands in the way. Each record carries the case identifier as the reader
  returned it, which is null when the element is missing or empty.
\<close>

lemma case_components_emitted:
  assumes "find_desc root ''HoSoDangKyDatDaiCollection'' = Some coll"
      and "h \<in> set (elem_findall coll ''HoSoDangKyDatDai'')"
  shows "(\<exists>before after. extract_hoso_data root = before @ hoso_records h @ after)
       \<and> map hs_thanhPhanHoSoID (hoso_records h)
         = map (\<lambda>tp. the (get_text (Some tp) ''thanhPhanHoSoID'' None))
             (filter has_component_id (case_components h))
       \<and> length (hoso_records h) = length (filter has_component_id (case_components h))
       \<and> (\<forall>r \<in> set (hoso_records h).
            hs_hoSoDangKySoID r = get_text (Some h) ''hoSoDangKySoID'' None)"
proof (intro conjI)
  show "\<exists>before after. extract_hoso_data root = before @ hoso_records h @ after"
    using assms(1,2) by (rule extract_hoso_data_block)
  show ids: "map hs_thanhPhanHoSoID (hoso_records h)
         = map (\<lambda>tp. the (get_text (Some tp) ''thanhPhanHoSoID'' None))
             (filter has_component_id (case_components h))"
    by (rule hoso_records_ids)
  show "length (hoso_records h) = length (filter has_component_id (case_components h))"
    using arg_cong [OF ids, of length] by simp
  show "\<forall>r \<in> set (hoso_records h).
          hs_hoSoDangKySoID r = get_text (Some h) ''hoSoDangKySoID'' None"
    by (auto dest!: hoso_records_parent)
qed

lemma case_absent_id_null_parent:
  assumes "field_absent h ''hoSoDangKySoID''" and "r \<in> set (hoso_records h)"
  shows "hs_hoSoDangKySoID r = None"
  using assms by (auto dest!: hoso_records_parent simp: get_text_absent)

lemma case_no_id_example:
  "map hs_thanhPhanHoSoID (extract_hoso_data doc_case_no_id) = [''TP1'']
   \<and> map hs_hoSoDangKySoID (extract_hoso_data doc_case_no_id) = [None]"
  by code_simp

text \<open>
  Claim C10 says that the records of a case that lacks its own case identifier carry a
  null parent-case identifier. A case whose identifier element holds only whitespace
  lacks one (the reader's result is not a usable identifier), and its component is still
  emitted, but the record carries the empty string, not null: the reader returns the
  empty string for a whitespace-only text.
\<close>

theorem blank_case_id_is_empty_string:
  "\<not> truthy (get_text (Some case_blank_id) ''hoSoDangKySoID'' None)
   \<and> map hs_thanhPhanHoSoID (extract_hoso_data doc_case_blank_id) = [''TP1'']
   \<and> map hs_hoSoDangKySoID (extract_hoso_data doc_case_blank_id) = [Some []]"
  by code_simp

lemma find_append_skip:
  "\<not> P x \<Longrightarrow> \<not> P y \<Longrightarrow> List.find P (pre @ x # post) = List.find P (pre @ y # post)"
  by (induction pre) simp_all

lemma find_append_hit:
  "\<forall>e \<in> set pre. \<not> P e \<Longrightarrow> P x \<Longrightarrow> List.find P (pre @ x # post) = Some x"
  by (induction pre) simp_all

lemma first_giay_to_first:
  assumes "\<forall>e \<in> set pre. elem_tag e \<noteq> ''GiayToTuyThanCollection''"
      and "\<forall>e \<in> set cpre. elem_tag e \<noteq> ''GiayToTuyThan''"
      and "elem_tag D1 = ''GiayToTuyThan''"
  shows "first_giay_to
           (Element t x (pre @ Element ''GiayToTuyThanCollection'' cx (cpre @ D1 # later) # post))
         = read_giay_to D1"
proof -
  have c: "elem_find (Element t x (pre @ Element ''GiayToTuyThanCollection'' cx (cpre @ D1 # later) # post))
             ''GiayToTuyThanCollection''
           = Some (Element ''GiayToTuyThanCollection'' cx (cpre @ D1 # later))"
    unfolding elem_find_def using assms(1) by (simp add: find_append_hit)
  have d: "elem_find (Element ''GiayToTuyThanCollection'' cx (cpre @ D1 # later)) ''GiayToTuyThan''
           = Some D1"
    unfolding elem_find_def using assms(2,3) by (simp add: find_append_hit)
  show ?thesis by (simp add: first_giay_to_def c d elem_truthy_def)
qed

lemma get_text_other_child:
  assumes "elem_tag c = g" "elem_tag c' = g" "f \<noteq> g"
  shows "get_text (Some (Element t x (pre @ c # post))) f d
       = get_text (Some (Element t x (pre @ c' # post))) f d"
proof -
  have "elem_find (Element t x (pre @ c # post)) f = elem_find (Element t x (pre @ c' # post)) f"
    unfolding elem_find_def using assms by (simp add: find_append_skip)
  then show ?thesis by (simp add: get_text_def)
qed

lemma canhan_loop_append: "canhan_loop (ps @ qs) = canhan_loop ps @ canhan_loop qs"
  by (induction ps) (simp_all add: Let_def)

text \<open>
  At a person node whose identity-document sub-collection lists \<open>D1\<close> first: the record
  has the fields read from \<open>D1\<close>, and the loop over the person nodes gives the same
  records whatever follows \<open>D1\<close>.
\<close>

lemma first_giay_to_of_person:
  assumes "\<forall>e \<in> set pre. elem_tag e \<noteq> ''GiayToTuyThanCollection''"
      and "\<forall>e \<in> set cpre. elem_tag e \<noteq> ''GiayToTuyThan''"
      and "elem_tag D1 = ''GiayToTuyThan''"
      and "p = Element t x (pre @ Element ''GiayToTuyThanCollection'' cx (cpre @ D1 # D2 # Ds) # post)"
      and "p' = Element t x (pre @ Element ''GiayToTuyThanCollection'' cx (cpre @ D1 # others) # post)"
  shows "cn_giay_to_info (canhan_record p i) = read_giay_to D1
       \<and> canhan_loop (ps1 @ p # ps2) = canhan_loop (ps1 @ p' # ps2)"
proof -
  have g: "first_giay_to p = read_giay_to D1" "first_giay_to p' = read_giay_to D1"
    using assms by (simp_all add: first_giay_to_first)
  have t: "\<And>f d. f \<noteq> ''GiayToTuyThanCollection'' \<Longrightarrow>
             get_text (Some p) f d = get_text (Some p') f d"
    unfolding assms(4,5) by (rule get_text_other_child) simp_all
  have r: "\<And>j. canhan_record p j = canhan_record p' j"
    by (simp add: canhan_record_def g t)
  have "canhan_loop [p] = canhan_loop [p']"
    by (simp add: Let_def r t)
  then have "canhan_loop (ps1 @ [p] @ ps2) = canhan_loop (ps1 @ [p'] @ ps2)"
    by (simp only: canhan_loop_append)
  then show ?thesis by (simp add: canhan_record_def g)
qed

lemma extract_canhan_data_loop:
  assumes "find_desc root ''CaNhanCollection'' = Some coll"
      and "elem_findall coll ''CaNhan'' = ps1 @ p # ps2"
  shows "extract_canhan_data root = canhan_loop (ps1 @ p # ps2)"
proof -
  have "p \<in> set (elem_findall coll ''CaNhan'')" using assms(2) by simp
  then have "elem_children coll \<noteq> []" by (rule elem_findall_children)
  then show ?thesis using assms by (simp add: extract_canhan_data_def elem_truthy_def)
qed

text \<open>
  Claim C8, as stated, has the second and later identity documents contribute nothing to
  any extracted record. The parcel extractor searches the whole document for usage-right
  nodes, also inside an identity document: with a second identity document that holds one,
  the parcel has its owner; without that document, it has none.
\<close>

theorem later_entry_counterexample:
  "map owner_fields (extract_thuadat_data (doc_with_identity_docs [giay_to_1, giay_to_nested]))
     = [(Some ''O'', Some ''A'', Some ''B'')]
   \<and> map owner_fields (extract_thuadat_data (doc_with_identity_docs [giay_to_1]))
     = [(None, None, None)]"
  by code_simp

text \<open>
  Claim C8, amended: for a person node of the person collection that has an identifier and
  whose identity-document sub-collection lists the entries \<open>D1, D2, ...\<close> in this order,
  the extracted Person record carries exactly the fields read from \<open>D1\<close>; and the
  extracted Person records are the same for every document whose person nodes differ from
  these only in what follows \<open>D1\<close> in that sub-collection (so \<open>D2\<close> and the later entries
  contribute nothing to any Person record).
\<close>

theorem first_identity_document_wins:
  assumes "find_desc root ''CaNhanCollection'' = Some coll"
      and "elem_findall coll ''CaNhan'' = ps1 @ p # ps2"
      and "find_desc root' ''CaNhanCollection'' = Some coll'"
      and "elem_findall coll' ''CaNhan'' = ps1 @ p' # ps2"
      and "p = Element t x
                 (pre @ Element ''GiayToTuyThanCollection'' cx (cpre @ D1 # D2 # Ds) # post)"
      and "p' = Element t x
                 (pre @ Element ''GiayToTuyThanCollection'' cx (cpre @ D1 # others) # post)"
      and "\<forall>e \<in> set pre. elem_tag e \<noteq> ''GiayToTuyThanCollection''"
      and "\<forall>e \<in> set cpre. elem_tag e \<noteq> ''GiayToTuyThan''"
      and "elem_tag D1 = ''GiayToTuyThan''"
      and "get_text (Some p) ''caNhanID'' None = Some i" and "i \<noteq> []"
  shows "extract_canhan_data root = canhan_loop ps1 @ canhan_record p i # canhan_loop ps2
       \<and> cn_giay_to_info (canhan_record p i) = read_giay_to D1
       \<and> extract_canhan_data root' = extract_canhan_data root"
proof -
  note n = first_giay_to_of_person [OF assms(7,8,9,5,6), of i ps1 ps2]
  have r: "extract_canhan_data root = canhan_loop (ps1 @ p # ps2)"
    using assms(1,2) by (rule extract_canhan_data_loop)
  have r': "extract_canhan_data root' = canhan_loop (ps1 @ p' # ps2)"
    using assms(3,4) by (rule extract_canhan_data_loop)
  have "canhan_loop [p] = [canhan_record p i]"
    using assms(10,11) by (simp add: Let_def truthy_def)
  then have "canhan_loop (ps1 @ [p] @ ps2)
             = canhan_loop ps1 @ [canhan_record p i] @ canhan_loop ps2"
    by (simp only: canhan_loop_append)
  then have "extract_canhan_data root = canhan_loop ps1 @ canhan_record p i # canhan_loop ps2"
    using r by simp
  then show ?thesis using n r r' by simp
qed

text \<open>
  Claim C8, amended, at a document whose person has two identity documents, against the
  document without the second one.
\<close>

theorem first_identity_document_witness:
  "map cn_caNhanID (extract_canhan_data (doc_with_identity_docs [giay_to_1, giay_to_2])) = [''A'']
   \<and> map (giayToTuyThanID \<circ> cn_giay_to_info)
        (extract_canhan_data (doc_with_identity_docs [giay_to_1, giay_to_2])) = [Some ''D1'']
   \<and> map (soGiayTo \<circ> cn_giay_to_info)
        (extract_canhan_data (doc_with_identity_docs [giay_to_1, giay_to_2])) = [Some ''001'']
   \<and> extract_canhan_data (doc_with_identity_docs [giay_to_1])
       = extract_canhan_data (doc_with_identity_docs [giay_to_1, giay_to_2])"
proof -
  let ?coll = "\<lambda>ds. Element ''CaNhanCollection'' None [person_with_identity_docs ds]"
  have h1: "find_desc (doc_with_identity_docs [giay_to_1, giay_to_2]) ''CaNhanCollection''
            = Some (?coll [giay_to_1, giay_to_2])" by code_simp
  have h2: "elem_findall (?coll [giay_to_1, giay_to_2]) ''CaNhan''
            = [] @ person_with_identity_docs [giay_to_1, giay_to_2] # []"
    by (simp add: elem_findall_def person_with_identity_docs_def)
  have h3: "find_desc (doc_with_identity_docs [giay_to_1]) ''CaNhanCollection''
            = Some (?coll [giay_to_1])" by code_simp
  have h4: "elem_findall (?coll [giay_to_1]) ''CaNhan''
            = [] @ person_with_identity_docs [giay_to_1] # []"
    by (simp add: elem_findall_def person_with_identity_docs_def)
  have h5: "person_with_identity_docs [giay_to_1, giay_to_2]
            = Element ''CaNhan'' None
                ([Element ''caNhanID'' (Some ''A'') []]
                 @ Element ''GiayToTuyThanCollection'' None ([] @ giay_to_1 # giay_to_2 # []) # [])"
    by (simp add: person_with_identity_docs_def)
  have h6: "person_with_identity_docs [giay_to_1]
            = Element ''CaNhan'' None
                ([Element ''caNhanID'' (Some ''A'') []]
                 @ Element ''GiayToTuyThanCollection'' None ([] @ giay_to_1 # []) # [])"
    by (simp add: person_with_identity_docs_def)
  have h7: "\<forall>e \<in> set [Element ''caNhanID'' (Some ''A'') []].
              elem_tag e \<noteq> ''GiayToTuyThanCollection''" by simp
  have h8: "\<forall>e \<in> set ([] :: element list). elem_tag e \<noteq> ''GiayToTuyThan''" by simp
  have h9: "elem_tag giay_to_1 = ''GiayToTuyThan''" by (simp add: giay_to_1_def)
  have h10: "get_text (Some (person_with_identity_docs [giay_to_1, giay_to_2])) ''caNhanID'' None
             = Some ''A''" by code_simp
  have h11: "''A'' \<noteq> []" by simp
  have d1: "giayToTuyThanID (read_giay_to giay_to_1) = Some ''D1''" by code_simp
  have d2: "soGiayTo (read_giay_to giay_to_1) = Some ''001''" by code_simp
  note t = first_identity_document_wins [OF h1 h2 h3 h4 h5 h6 h7 h8 h9 h10 h11]
  have e: "extract_canhan_data (doc_with_identity_docs [giay_to_1, giay_to_2])
           = [canhan_record (person_with_identity_docs [giay_to_1, giay_to_2]) ''A'']"
    using t by simp
  have g: "cn_giay_to_info (canhan_record (person_with_identity_docs [giay_to_1, giay_to_2]) ''A'')
           = read_giay_to giay_to_1"
    using t by simp
  have s: "extract_canhan_data (doc_with_identity_docs [giay_to_1])
       = extract_canhan_data (doc_with_identity_docs [giay_to_1, giay_to_2])"
    using t by simp
  have c1: "map cn_caNhanID (extract_canhan_data (doc_with_identity_docs [giay_to_1, giay_to_2]))
            = [''A'']"
    by (simp add: e canhan_record_def)
  have c2: "map (giayToTuyThanID \<circ> cn_giay_to_info)
        (extract_canhan_data (doc_with_identity_docs [giay_to_1, giay_to_2])) = [Some ''D1'']"
    by (simp add: e g d1)
  have c3: "map (soGiayTo \<circ> cn_giay_to_info)
        (extract_canhan_data (doc_with_identity_docs [giay_to_1, giay_to_2])) = [Some ''001'']"
    by (simp add: e g d2)
  show ?thesis using c1 c2 c3 s by (intro conjI)
qed

lemma vo_chong_loop_inv:
  assumes "\<And>k pr. m k = Some pr \<Longrightarrow> k \<noteq> [] \<and> Q k pr"
      and "\<And>vc k. vc \<in> set vcs \<Longrightarrow> get_text (Some vc) ''voChongID'' None = Some k \<Longrightarrow> k \<noteq> []
             \<Longrightarrow> Q k (pair_of_node vc)"
      and "vo_chong_loop vcs m k = Some pr"
  shows "k \<noteq> [] \<and> Q k pr"
  using assms
proof (induction vcs arbitrary: m)
  case Nil
  then show ?case by simp
next
  case (Cons vc vcs)
  show ?case
  proof (cases "truthy (get_text (Some vc) ''voChongID'' None)")
    case True
    then obtain j where j: "get_text (Some vc) ''voChongID'' None = Some j" "j \<noteq> []"
      by (auto simp: truthy_def split: option.splits)
    let ?m = "m(j \<mapsto> pair_of_node vc)"
    have l: "vo_chong_loop vcs ?m k = Some pr"
      using Cons.prems(3) True j by (simp add: Let_def pair_of_node_def)
    have inv: "\<And>k pr. ?m k = Some pr \<Longrightarrow> k \<noteq> [] \<and> Q k pr"
      using Cons.prems(1) Cons.prems(2) [of vc j] j by (auto split: if_splits)
    show ?thesis
    proof (rule Cons.IH [where m = ?m])
      show "\<And>k pr. ?m k = Some pr \<Longrightarrow> k \<noteq> [] \<and> Q k pr" by (rule inv)
      show "\<And>vc' k. vc' \<in> set vcs \<Longrightarrow> get_text (Some vc') ''voChongID'' None = Some k
              \<Longrightarrow> k \<noteq> [] \<Longrightarrow> Q k (pair_of_node vc')"
        using Cons.prems(2) by simp
      show "vo_chong_loop vcs ?m k = Some pr" by (rule l)
    qed
  next
    case False
    then have l2: "vo_chong_loop vcs m k = Some pr" using Cons.prems(3) by (simp add: Let_def)
    show ?thesis
    proof (rule Cons.IH [where m = m])
      show "\<And>k pr. m k = Some pr \<Longrightarrow> k \<noteq> [] \<and> Q k pr" by (rule Cons.prems(1))
      show "\<And>vc' k. vc' \<in> set vcs \<Longrightarrow> get_text (Some vc') ''voChongID'' None = Some k
              \<Longrightarrow> k \<noteq> [] \<Longrightarrow> Q k (pair_of_node vc')"
        using Cons.prems(2) by simp
      show "vo_chong_loop vcs m k = Some pr" by (rule l2)
    qed
  qed
qed

lemma build_vo_chong_map_entry:
  assumes "build_vo_chong_map root k = Some pr"
  shows "k \<noteq> [] \<and> voChongID pr = Some k \<and>
         (\<exists>c vc. find_desc root ''VoChongCollection'' = Some c \<and>
                  vc \<in> set (elem_findall c ''VoChong'') \<and> pair_of_node vc = pr)"
proof -
  obtain c where c: "find_desc root ''VoChongCollection'' = Some c"
      and l: "vo_chong_loop (elem_findall c ''VoChong'') Map.empty k = Some pr"
    using assms by (auto simp: build_vo_chong_map_def Let_def elem_truthy_def
        split: if_splits option.splits)
  have "k \<noteq> [] \<and> (voChongID pr = Some k \<and> (\<exists>vc \<in> set (elem_findall c ''VoChong''). pair_of_node vc = pr))"
    by (rule vo_chong_loop_inv [where m = Map.empty and vcs = "elem_findall c ''VoChong''",
          OF _ _ l]) (auto simp: pair_of_node_def)
  then show ?thesis using c by auto
qed

lemma build_vo_chong_map_no_empty_key: "build_vo_chong_map root [] = None"
  using build_vo_chong_map_entry [of root "[]"] by (cases "build_vo_chong_map root []") auto

lemma quyen_loop_find:
  assumes "m [] = None"
  shows "quyen_loop qs pid m =
     (case List.find (qualifies m pid) qs of
        None \<Rightarrow> \<lparr>voChongID = None, voID = None, chongID = None\<rparr>
      | Some q \<Rightarrow> the (m (the (get_text (Some q) ''doiTuongID'' None))))"
proof (induction qs)
  case Nil
  then show ?case by simp
next
  case (Cons q qs)
  show ?case
  proof (cases "qualifies m pid q")
    case True
    then show ?thesis
      using assms by (auto simp: qualifies_def truthy_def Let_def split: option.splits)
  next
    case False
    then show ?thesis
      using Cons assms by (auto simp: qualifies_def truthy_def Let_def split: option.splits)
  qed
qed

lemma thuadat_loop_owner:
  assumes "r \<in> set (thuadat_loop root m tds)"
  shows "owner_fields r = pair_values (quyen_loop (findall_desc root ''QuyenSuDungDat'') (td_thuaDatID r) m)"
  using assms
  by (induction tds) (auto simp: Let_def thuadat_record_def owner_fields_def pair_values_def
        split: if_splits)


text \<open>
  Claim C1: for every extracted Parcel record, with the usage-right nodes below the root
  taken in document order: when none qualifies, the three owner fields are null; otherwise
  the first that qualifies decides, and the owner fields are the values of the owner pair
  that the map holds under its subject reference, which is an owner-pair node of the
  collection with that identifier. So the owner fields are set if and only if some
  usage-right node qualifies.
\<close>

theorem owner_resolution:
  assumes "r \<in> set (extract_thuadat_data root)"
  shows "(List.find (qualifies (build_vo_chong_map root) (td_thuaDatID r))
            (findall_desc root ''QuyenSuDungDat'') = None
          \<longrightarrow> owner_fields r = (None, None, None))
       \<and> (\<forall>q. List.find (qualifies (build_vo_chong_map root) (td_thuaDatID r))
                 (findall_desc root ''QuyenSuDungDat'') = Some q
          \<longrightarrow> (\<exists>k pr. get_text (Some q) ''doiTuongID'' None = Some k
                      \<and> build_vo_chong_map root k = Some pr
                      \<and> voChongID pr = Some k
                      \<and> (\<exists>vc \<in> set (owner_pair_nodes root). pair_of_node vc = pr)
                      \<and> owner_fields r = pair_values pr))
       \<and> ((\<exists>q \<in> set (findall_desc root ''QuyenSuDungDat'').
              qualifies (build_vo_chong_map root) (td_thuaDatID r) q)
            \<longleftrightarrow> owner_fields r \<noteq> (None, None, None))"
proof -
  let ?m = "build_vo_chong_map root"
  let ?qs = "findall_desc root ''QuyenSuDungDat''"
  let ?f = "List.find (qualifies ?m (td_thuaDatID r)) ?qs"
  have "r \<in> set (thuadat_loop root ?m
           (elem_findall (the (find_desc root ''ThuaDatCollection'')) ''DC_ThuaDat''))"
    using assms by (auto simp: extract_thuadat_data_def Let_def split: if_splits)
  then have o: "owner_fields r = pair_values (quyen_loop ?qs (td_thuaDatID r) ?m)"
    by (rule thuadat_loop_owner)
  note f = quyen_loop_find [where m = ?m and qs = ?qs and pid = "td_thuaDatID r",
      OF build_vo_chong_map_no_empty_key]
  have none: "?f = None \<Longrightarrow> owner_fields r = (None, None, None)"
    using o f by (simp add: pair_values_def)
  have some: "\<exists>k pr. get_text (Some q) ''doiTuongID'' None = Some k
                      \<and> ?m k = Some pr \<and> voChongID pr = Some k
                      \<and> (\<exists>vc \<in> set (owner_pair_nodes root). pair_of_node vc = pr)
                      \<and> owner_fields r = pair_values pr" if q: "?f = Some q" for q
  proof -
    have "qualifies ?m (td_thuaDatID r) q" using q by (auto simp: find_Some_iff)
    then obtain k pr where k: "get_text (Some q) ''doiTuongID'' None = Some k" "?m k = Some pr"
      by (auto simp: qualifies_def split: option.splits)
    have "voChongID pr = Some k \<and> (\<exists>vc \<in> set (owner_pair_nodes root). pair_of_node vc = pr)"
      using build_vo_chong_map_entry [OF k(2)] by (auto simp: owner_pair_nodes_def)
    moreover have "owner_fields r = pair_values pr" using q o f k by simp
    ultimately show ?thesis using k by blast
  qed
  have iff: "(\<exists>q \<in> set ?qs. qualifies ?m (td_thuaDatID r) q)
            \<longleftrightarrow> owner_fields r \<noteq> (None, None, None)"
  proof (cases ?f)
    case None
    then show ?thesis using none by (auto simp: find_None_iff)
  next
    case (Some q)
    then have "q \<in> set ?qs \<and> qualifies ?m (td_thuaDatID r) q"
      by (auto simp: find_Some_iff)
    moreover have "owner_fields r \<noteq> (None, None, None)"
      using some [OF Some] by (auto simp: pair_values_def)
    ultimately show ?thesis by blast
  qed
  show ?thesis using none some iff by blast
qed

text \<open>Claim C1 at a parcel linked to an owner pair by one usage right.\<close>

theorem owner_resolution_witness:
  "hd (extract_thuadat_data doc_owned) \<in> set (extract_thuadat_data doc_owned)
   \<and> owner_fields (hd (extract_thuadat_data doc_owned)) = (Some ''O'', Some ''A'', Some ''B'')"
proof -
  let ?r = "hd (extract_thuadat_data doc_owned)"
  let ?q = "Element ''QuyenSuDungDat'' None
          [Element ''thuaDatID'' (Some ''P'') [], Element ''doiTuongID'' (Some ''O'') []]"
  have ne: "extract_thuadat_data doc_owned \<noteq> []" by code_simp
  then have mem: "?r \<in> set (extract_thuadat_data doc_owned)" by simp
  have pid: "td_thuaDatID ?r = ''P''" by code_simp
  have qs: "findall_desc doc_owned ''QuyenSuDungDat'' = [?q]" by code_simp
  have qu: "qualifies (build_vo_chong_map doc_owned) ''P'' ?q" by code_simp
  have s: "get_text (Some ?q) ''doiTuongID'' None = Some ''O''" by code_simp
  have mk: "build_vo_chong_map doc_owned ''O''
            = Some \<lparr>voChongID = Some ''O'', voID = Some ''A'', chongID = Some ''B''\<rparr>"
    by code_simp
  have f: "List.find (qualifies (build_vo_chong_map doc_owned) (td_thuaDatID ?r))
            (findall_desc doc_owned ''QuyenSuDungDat'') = Some ?q"
    by (simp add: pid qs qu)
  from owner_resolution [OF mem] f s mk
  have "owner_fields ?r
        = pair_values \<lparr>voChongID = Some ''O'', voID = Some ''A'', chongID = Some ''B''\<rparr>"
    by auto
  then show ?thesis using mem by (simp add: pair_values_def)
qed

section \<open>Properties of the loader\<close>

subsection \<open>A batch of rows that are all stored already\<close>

lemma execute_batch_noop:
  assumes "\<And>row. row \<in> set rows \<Longrightarrow> stmt st row = Inr (st, 0) \<or> isl (stmt st row)"
  shows "snd (execute_batch stmt st rows rc) = st
       \<and> (\<forall>n. fst (execute_batch stmt st rows rc) = Inr n \<longrightarrow> n = (if rows = [] then rc else 0))"
  using assms
proof (induction rows arbitrary: rc)
  case Nil
  then show ?case by simp
next
  case (Cons row rows)
  show ?case
  proof (cases "stmt st row")
    case (Inl e)
    then show ?thesis by simp
  next
    case (Inr p)
    then have p: "p = (st, 0)" using Cons.prems [of row] by simp
    have "snd (execute_batch stmt st rows 0) = st
       \<and> (\<forall>n. fst (execute_batch stmt st rows 0) = Inr n \<longrightarrow> n = (if rows = [] then 0 else 0))"
      by (rule Cons.IH) (simp add: Cons.prems)
    then show ?thesis using Inr p by simp
  qed
qed

lemma try_execute_batch_noop:
  assumes "\<And>row. row \<in> set rows \<Longrightarrow>
             stmt (working conn) row = Inr (working conn, 0) \<or> isl (stmt (working conn) row)"
      and "working conn = committed conn" "rows \<noteq> []"
  shows "working (fst (try_execute_batch stmt name conn rows)) = working conn
       \<and> committed (fst (try_execute_batch stmt name conn rows)) = committed conn
       \<and> snd (try_execute_batch stmt name conn rows) = (0, int (length rows))"
proof (cases "aborted conn")
  case True
  then show ?thesis
    using assms(2,3)
    by (simp add: try_execute_batch_def cursor_execute_batch_def rollback_def print_def)
next
  case False
  note n = execute_batch_noop [of rows stmt "working conn" "- 1", OF assms(1)]
  obtain res st where r: "execute_batch stmt (working conn) rows (- 1) = (res, st)"
    by (cases "execute_batch stmt (working conn) rows (- 1)")
  have st: "st = working conn" using n r by simp
  show ?thesis
  proof (cases res)
    case (Inl e)
    then show ?thesis
      using r assms(2) False
      by (simp add: try_execute_batch_def cursor_execute_batch_def rollback_def print_def)
  next
    case (Inr k)
    then have "k = 0" using n r assms(3) by simp
    then show ?thesis
      using r Inr st False by (simp add: try_execute_batch_def cursor_execute_batch_def)
  qed
qed

lemma insert_thuadat_noop:
  assumes "set (map td_thuaDatID rows) \<subseteq> set (map td_thuaDatID (tbl_thuadat (working conn)))"
      and "working conn = committed conn"
  shows "working (fst (insert_thuadat db conn rows)) = working conn
       \<and> committed (fst (insert_thuadat db conn rows)) = committed conn
       \<and> snd (insert_thuadat db conn rows) = (0, int (length rows))"
proof (cases "rows = []")
  case True
  then show ?thesis by (simp add: insert_thuadat_def)
next
  case False
  have "\<And>row. row \<in> set rows \<Longrightarrow>
          insert_thuadat_row db (working conn) row = Inr (working conn, 0)
          \<or> isl (insert_thuadat_row db (working conn) row)"
    using assms(1) by (auto simp: insert_thuadat_row_def)
  then show ?thesis
    using try_execute_batch_noop [of rows "insert_thuadat_row db" conn, OF _ assms(2) False] False
    by (simp add: insert_thuadat_def)
qed

lemma insert_canhan_noop:
  assumes "set (map cn_caNhanID rows) \<subseteq> set (map cn_caNhanID (tbl_canhan (working conn)))"
      and "working conn = committed conn"
  shows "working (fst (insert_canhan db conn rows)) = working conn
       \<and> committed (fst (insert_canhan db conn rows)) = committed conn
       \<and> snd (insert_canhan db conn rows) = (0, int (length rows))"
proof (cases "rows = []")
  case True
  then show ?thesis by (simp add: insert_canhan_def)
next
  case False
  have "\<And>row. row \<in> set rows \<Longrightarrow>
          insert_canhan_row db (working conn) row = Inr (working conn, 0)
          \<or> isl (insert_canhan_row db (working conn) row)"
    using assms(1) by (auto simp: insert_canhan_row_def)
  then show ?thesis
    using try_execute_batch_noop [of rows "insert_canhan_row db" conn, OF _ assms(2) False] False
    by (simp add: insert_canhan_def)
qed

lemma insert_giaychungnhan_noop:
  assumes "set (map gcn_giayChungNhanID rows)
           \<subseteq> set (map gcn_giayChungNhanID (tbl_giaychungnhan (working conn)))"
      and "working conn = committed conn"
  shows "working (fst (insert_giaychungnhan db conn rows)) = working conn
       \<and> committed (fst (insert_giaychungnhan db conn rows)) = committed conn
       \<and> snd (insert_giaychungnhan db conn rows) = (0, int (length rows))"
proof (cases "rows = []")
  case True
  then show ?thesis by (simp add: insert_giaychungnhan_def)
next
  case False
  have "\<And>row. row \<in> set rows \<Longrightarrow>
          insert_giaychungnhan_row db (working conn) row = Inr (working conn, 0)
          \<or> isl (insert_giaychungnhan_row db (working conn) row)"
    using assms(1) by (auto simp: insert_giaychungnhan_row_def)
  then show ?thesis
    using try_execute_batch_noop [of rows "insert_giaychungnhan_row db" conn,
        OF _ assms(2) False] False
    by (simp add: insert_giaychungnhan_def)
qed

lemma nullify_invalid_ids:
  "map hs_thanhPhanHoSoID (nullify_invalid valid rows) = map hs_thanhPhanHoSoID rows"
  by (induction rows) (simp_all add: Let_def)

lemma nullify_invalid_length: "length (nullify_invalid valid rows) = length rows"
  by (induction rows) (simp_all add: Let_def)

lemma valid_gcn_ids_stores:
  "working (fst (valid_gcn_ids db conn rows)) = working conn
   \<and> committed (fst (valid_gcn_ids db conn rows)) = committed conn"
  by (simp add: valid_gcn_ids_def print_def select_giaychungnhan_ids_def)

lemma insert_hoso_noop:
  assumes "set (map hs_thanhPhanHoSoID rows)
           \<subseteq> set (map hs_thanhPhanHoSoID (tbl_hoso (working conn)))"
      and "working conn = committed conn"
  shows "working (fst (insert_hoso db conn rows)) = working conn
       \<and> committed (fst (insert_hoso db conn rows)) = committed conn
       \<and> snd (snd (insert_hoso db conn rows)) = (0, int (length rows))"
proof (cases "rows = []")
  case True
  then show ?thesis by (simp add: insert_hoso_def)
next
  case False
  obtain conn1 valid where v: "valid_gcn_ids db conn rows = (conn1, valid)"
    by (cases "valid_gcn_ids db conn rows")
  have c1: "working conn1 = working conn" "committed conn1 = committed conn"
    using valid_gcn_ids_stores [of db conn rows] v by simp_all
  let ?rows1 = "nullify_invalid valid rows"
  have ne: "?rows1 \<noteq> []" using False nullify_invalid_length [of valid rows] by auto
  have "\<And>row. row \<in> set ?rows1 \<Longrightarrow>
          insert_hoso_row db (working conn1) row = Inr (working conn1, 0)
          \<or> isl (insert_hoso_row db (working conn1) row)"
  proof -
    fix row assume "row \<in> set ?rows1"
    then have "hs_thanhPhanHoSoID row \<in> set (map hs_thanhPhanHoSoID ?rows1)" by simp
    then have "hs_thanhPhanHoSoID row \<in> set (map hs_thanhPhanHoSoID (tbl_hoso (working conn1)))"
      using assms(1) c1 by (auto simp only: nullify_invalid_ids)
    then show "insert_hoso_row db (working conn1) row = Inr (working conn1, 0)
          \<or> isl (insert_hoso_row db (working conn1) row)"
      by (simp add: insert_hoso_row_def)
  qed
  then have "working (fst (try_execute_batch (insert_hoso_row db) ''hoso'' conn1 ?rows1))
               = working conn1
       \<and> committed (fst (try_execute_batch (insert_hoso_row db) ''hoso'' conn1 ?rows1))
               = committed conn1
       \<and> snd (try_execute_batch (insert_hoso_row db) ''hoso'' conn1 ?rows1)
               = (0, int (length ?rows1))"
    using try_execute_batch_noop [of ?rows1 "insert_hoso_row db" conn1, OF _ _ ne] c1 assms(2)
    by simp
  then show ?thesis
    using False v c1 by (simp add: insert_hoso_def Let_def case_prod_beta nullify_invalid_length)
qed

text \<open>
  Claim C2: a connection opens on a store that already holds a row for every identifier
  of the four batches (as after a first pass of the same document). The load then reports
  0 inserted and the batch size skipped for each kind, and the store after the commit is
  the store before: nothing is inserted and no existing row is changed.
\<close>

theorem second_pass_is_idempotent:
  assumes "working conn = committed conn"
      and "set (map td_thuaDatID thuadat_data)
           \<subseteq> set (map td_thuaDatID (tbl_thuadat (working conn)))"
      and "set (map cn_caNhanID canhan_data)
           \<subseteq> set (map cn_caNhanID (tbl_canhan (working conn)))"
      and "set (map gcn_giayChungNhanID gcn_data)
           \<subseteq> set (map gcn_giayChungNhanID (tbl_giaychungnhan (working conn)))"
      and "set (map hs_thanhPhanHoSoID hoso_data)
           \<subseteq> set (map hs_thanhPhanHoSoID (tbl_hoso (working conn)))"
  shows "committed (fst (load_document db conn thuadat_data canhan_data gcn_data hoso_data))
           = committed conn
       \<and> working (fst (load_document db conn thuadat_data canhan_data gcn_data hoso_data))
           = committed conn
       \<and> snd (load_document db conn thuadat_data canhan_data gcn_data hoso_data)
           = \<lparr>thuadat_counts = (0, int (length thuadat_data)),
              canhan_counts = (0, int (length canhan_data)),
              giaychungnhan_counts = (0, int (length gcn_data)),
              hoso_counts = (0, int (length hoso_data))\<rparr>"
proof -
  obtain conn1 cn where s1: "insert_canhan db conn canhan_data = (conn1, cn)"
    by (cases "insert_canhan db conn canhan_data")
  have p1: "working conn1 = working conn" "committed conn1 = committed conn"
      "cn = (0, int (length canhan_data))"
    using insert_canhan_noop [OF assms(3) assms(1), of db] s1 by simp_all
  obtain conn2 gcn where s2: "insert_giaychungnhan db conn1 gcn_data = (conn2, gcn)"
    by (cases "insert_giaychungnhan db conn1 gcn_data")
  have p2: "working conn2 = working conn" "committed conn2 = committed conn"
      "gcn = (0, int (length gcn_data))"
    using insert_giaychungnhan_noop [of gcn_data conn1 db] s2 p1 assms(1,4) by simp_all
  obtain conn3 td where s3: "insert_thuadat db conn2 thuadat_data = (conn3, td)"
    by (cases "insert_thuadat db conn2 thuadat_data")
  have p3: "working conn3 = working conn" "committed conn3 = committed conn"
      "td = (0, int (length thuadat_data))"
    using insert_thuadat_noop [of thuadat_data conn2 db] s3 p2 assms(1,2) by simp_all
  obtain conn4 hoso_data1 hs where s4: "insert_hoso db conn3 hoso_data = (conn4, hoso_data1, hs)"
    by (cases "insert_hoso db conn3 hoso_data")
  have p4: "working conn4 = working conn" "committed conn4 = committed conn"
      "hs = (0, int (length hoso_data))"
    using insert_hoso_noop [of hoso_data conn3 db] s4 p3 assms(1,5) by simp_all
  show ?thesis
    using s1 s2 s3 s4 p1 p2 p3 p4 assms(1)
    by (simp add: load_document_def commit_def rollback_def)
qed

text \<open>
  Claim C2 at the example document, loaded a second time into the store its first pass
  has filled.
\<close>

theorem second_pass_witness:
  "working conn_loaded = committed conn_loaded
   \<and> set (map td_thuaDatID (extract_thuadat_data doc_full))
       \<subseteq> set (map td_thuaDatID (tbl_thuadat (working conn_loaded)))
   \<and> set (map cn_caNhanID (extract_canhan_data doc_full))
       \<subseteq> set (map cn_caNhanID (tbl_canhan (working conn_loaded)))
   \<and> set (map gcn_giayChungNhanID (extract_giaychungnhan_data doc_full))
       \<subseteq> set (map gcn_giayChungNhanID (tbl_giaychungnhan (working conn_loaded)))
   \<and> set (map hs_thanhPhanHoSoID (extract_hoso_data doc_full))
       \<subseteq> set (map hs_thanhPhanHoSoID (tbl_hoso (working conn_loaded)))
   \<and> committed (fst (load_document db_ok conn_loaded (extract_thuadat_data doc_full)
         (extract_canhan_data doc_full) (extract_giaychungnhan_data doc_full)
         (extract_hoso_data doc_full))) = committed conn_loaded
   \<and> snd (load_document db_ok conn_loaded (extract_thuadat_data doc_full)
         (extract_canhan_data doc_full) (extract_giaychungnhan_data doc_full)
         (extract_hoso_data doc_full))
       = \<lparr>thuadat_counts = (0, 1), canhan_counts = (0, 2),
          giaychungnhan_counts = (0, 1), hoso_counts = (0, 2)\<rparr>"
proof -
  have h0: "working conn_loaded = committed conn_loaded" by code_simp
  have h1: "set (map td_thuaDatID (extract_thuadat_data doc_full))
       \<subseteq> set (map td_thuaDatID (tbl_thuadat (working conn_loaded)))" by code_simp
  have h2: "set (map cn_caNhanID (extract_canhan_data doc_full))
       \<subseteq> set (map cn_caNhanID (tbl_canhan (working conn_loaded)))" by code_simp
  have h3: "set (map gcn_giayChungNhanID (extract_giaychungnhan_data doc_full))
       \<subseteq> set (map gcn_giayChungNhanID (tbl_giaychungnhan (working conn_loaded)))"
    by code_simp
  have h4: "set (map hs_thanhPhanHoSoID (extract_hoso_data doc_full))
       \<subseteq> set (map hs_thanhPhanHoSoID (tbl_hoso (working conn_loaded)))" by code_simp
  have n: "length (extract_thuadat_data doc_full) = 1" "length (extract_canhan_data doc_full) = 2"
      "length (extract_giaychungnhan_data doc_full) = 1" "length (extract_hoso_data doc_full) = 2"
    by code_simp+
  show ?thesis
    using second_pass_is_idempotent [OF h0 h1 h2 h3 h4, of db_ok] h0 h1 h2 h3 h4
    by (simp add: n)
qed

subsection \<open>A batch whose insert raises\<close>

lemma try_execute_batch_raises:
  assumes "fst (cursor_execute_batch stmt conn rows) = Inl e"
  shows "try_execute_batch stmt name conn rows
         = (conn\<lparr>working := committed conn, aborted := False,
                 printed := printed conn @ [''Error inserting '' @ name]\<rparr>,
            (0, int (length rows)))"
proof (cases "aborted conn \<and> rows \<noteq> []")
  case True
  then show ?thesis
    by (simp add: try_execute_batch_def cursor_execute_batch_def rollback_def print_def)
next
  case False
  then show ?thesis
    using assms
    by (cases "execute_batch stmt (working conn) rows (- 1)")
       (auto simp: try_execute_batch_def cursor_execute_batch_def rollback_def print_def
          split: sum.splits)
qed

text \<open>
  Claim C4: for each of the four kinds, when the batched insert of a non-empty batch raises,
  the insert method prints the error, rolls the transaction back (the working state is the
  committed state again, so nothing of the batch stays and nothing is tried again) and
  reports 0 inserted and the batch size skipped. For the components the batch that runs is
  the one the existence check has left.
\<close>

theorem insert_failure_rolls_back:
  "(thuadat_data \<noteq> []
      \<and> fst (cursor_execute_batch (insert_thuadat_row db) conn thuadat_data) = Inl e1
     \<longrightarrow> insert_thuadat db conn thuadat_data
         = (conn\<lparr>working := committed conn, aborted := False,
                 printed := printed conn @ [''Error inserting thuadat'']\<rparr>,
            (0, int (length thuadat_data))))
   \<and> (canhan_data \<noteq> []
      \<and> fst (cursor_execute_batch (insert_canhan_row db) conn canhan_data) = Inl e2
     \<longrightarrow> insert_canhan db conn canhan_data
         = (conn\<lparr>working := committed conn, aborted := False,
                 printed := printed conn @ [''Error inserting canhan'']\<rparr>,
            (0, int (length canhan_data))))
   \<and> (gcn_data \<noteq> []
      \<and> fst (cursor_execute_batch (insert_giaychungnhan_row db) conn gcn_data) = Inl e3
     \<longrightarrow> insert_giaychungnhan db conn gcn_data
         = (conn\<lparr>working := committed conn, aborted := False,
                 printed := printed conn @ [''Error inserting giaychungnhan'']\<rparr>,
            (0, int (length gcn_data))))
   \<and> (hoso_data \<noteq> []
      \<and> fst (cursor_execute_batch (insert_hoso_row db) (fst (valid_gcn_ids db conn hoso_data))
               (nullify_invalid (snd (valid_gcn_ids db conn hoso_data)) hoso_data)) = Inl e4
     \<longrightarrow> working (fst (insert_hoso db conn hoso_data)) = committed conn
       \<and> committed (fst (insert_hoso db conn hoso_data)) = committed conn
       \<and> aborted (fst (insert_hoso db conn hoso_data)) = False
       \<and> last (printed (fst (insert_hoso db conn hoso_data))) = ''Error inserting hoso''
       \<and> snd (snd (insert_hoso db conn hoso_data)) = (0, int (length hoso_data)))"
proof (intro conjI impI)
  assume "thuadat_data \<noteq> []
      \<and> fst (cursor_execute_batch (insert_thuadat_row db) conn thuadat_data) = Inl e1"
  then show "insert_thuadat db conn thuadat_data
         = (conn\<lparr>working := committed conn, aborted := False,
                 printed := printed conn @ [''Error inserting thuadat'']\<rparr>,
            (0, int (length thuadat_data)))"
    by (simp add: insert_thuadat_def try_execute_batch_raises)
next
  assume "canhan_data \<noteq> []
      \<and> fst (cursor_execute_batch (insert_canhan_row db) conn canhan_data) = Inl e2"
  then show "insert_canhan db conn canhan_data
         = (conn\<lparr>working := committed conn, aborted := False,
                 printed := printed conn @ [''Error inserting canhan'']\<rparr>,
            (0, int (length canhan_data)))"
    by (simp add: insert_canhan_def try_execute_batch_raises)
next
  assume "gcn_data \<noteq> []
      \<and> fst (cursor_execute_batch (insert_giaychungnhan_row db) conn gcn_data) = Inl e3"
  then show "insert_giaychungnhan db conn gcn_data
         = (conn\<lparr>working := committed conn, aborted := False,
                 printed := printed conn @ [''Error inserting giaychungnhan'']\<rparr>,
            (0, int (length gcn_data)))"
    by (simp add: insert_giaychungnhan_def try_execute_batch_raises)
next
  assume a: "hoso_data \<noteq> []
      \<and> fst (cursor_execute_batch (insert_hoso_row db) (fst (valid_gcn_ids db conn hoso_data))
               (nullify_invalid (snd (valid_gcn_ids db conn hoso_data)) hoso_data)) = Inl e4"
  let ?v = "valid_gcn_ids db conn hoso_data"
  let ?rows1 = "nullify_invalid (snd ?v) hoso_data"
  have w: "working (fst ?v) = working conn" "committed (fst ?v) = committed conn"
    using valid_gcn_ids_stores [of db conn hoso_data] by simp_all
  have "fst (cursor_execute_batch (insert_hoso_row db) (fst ?v) ?rows1) = Inl e4"
    using a by simp
  then have t: "try_execute_batch (insert_hoso_row db) ''hoso'' (fst ?v) ?rows1
         = ((fst ?v)\<lparr>working := committed (fst ?v), aborted := False,
                 printed := printed (fst ?v) @ [''Error inserting '' @ ''hoso'']\<rparr>,
            (0, int (length ?rows1)))"
    by (rule try_execute_batch_raises)
  have i: "insert_hoso db conn hoso_data
       = (fst (try_execute_batch (insert_hoso_row db) ''hoso'' (fst ?v) ?rows1), ?rows1,
          snd (try_execute_batch (insert_hoso_row db) ''hoso'' (fst ?v) ?rows1))"
    using a by (simp add: insert_hoso_def Let_def case_prod_beta)
  show "working (fst (insert_hoso db conn hoso_data)) = committed conn"
    by (simp add: i t w)
  show "committed (fst (insert_hoso db conn hoso_data)) = committed conn"
    by (simp add: i t w)
  show "aborted (fst (insert_hoso db conn hoso_data)) = False"
    by (simp add: i t)
  show "last (printed (fst (insert_hoso db conn hoso_data))) = ''Error inserting hoso''"
    by (simp add: i t)
  show "snd (snd (insert_hoso db conn hoso_data)) = (0, int (length hoso_data))"
    by (simp add: i t nullify_invalid_length)
qed

text \<open>
  Claim C4 at a store that rejects the types of every row, for the four batches of the
  example document.
\<close>

theorem insert_failure_witness:
  "snd (insert_thuadat db_reject conn_loaded (extract_thuadat_data doc_full)) = (0, 1)
   \<and> working (fst (insert_thuadat db_reject conn_loaded (extract_thuadat_data doc_full)))
       = committed conn_loaded
   \<and> snd (insert_canhan db_reject conn_loaded (extract_canhan_data doc_full)) = (0, 2)
   \<and> snd (insert_giaychungnhan db_reject conn_loaded (extract_giaychungnhan_data doc_full))
       = (0, 1)
   \<and> snd (snd (insert_hoso db_reject conn_loaded (extract_hoso_data doc_full))) = (0, 2)"
proof -
  have h1: "extract_thuadat_data doc_full \<noteq> []
      \<and> fst (cursor_execute_batch (insert_thuadat_row db_reject) conn_loaded
               (extract_thuadat_data doc_full)) = Inl DataError" by code_simp
  have h2: "extract_canhan_data doc_full \<noteq> []
      \<and> fst (cursor_execute_batch (insert_canhan_row db_reject) conn_loaded
               (extract_canhan_data doc_full)) = Inl DataError" by code_simp
  have h3: "extract_giaychungnhan_data doc_full \<noteq> []
      \<and> fst (cursor_execute_batch (insert_giaychungnhan_row db_reject) conn_loaded
               (extract_giaychungnhan_data doc_full)) = Inl DataError" by code_simp
  have h4: "extract_hoso_data doc_full \<noteq> []
      \<and> fst (cursor_execute_batch (insert_hoso_row db_reject)
               (fst (valid_gcn_ids db_reject conn_loaded (extract_hoso_data doc_full)))
               (nullify_invalid (snd (valid_gcn_ids db_reject conn_loaded
                  (extract_hoso_data doc_full))) (extract_hoso_data doc_full)))
          = Inl DataError" by code_simp
  have n: "length (extract_thuadat_data doc_full) = 1" "length (extract_canhan_data doc_full) = 2"
      "length (extract_giaychungnhan_data doc_full) = 1" "length (extract_hoso_data doc_full) = 2"
    by code_simp+
  show ?thesis
    using insert_failure_rolls_back [of "extract_thuadat_data doc_full" db_reject conn_loaded
        DataError "extract_canhan_data doc_full" DataError
        "extract_giaychungnhan_data doc_full" DataError
        "extract_hoso_data doc_full" DataError] h1 h2 h3 h4
    by (simp add: n)
qed

subsection \<open>The existence check of \<open>insert_hoso\<close>\<close>

lemma nullify_invalid_map:
  "nullify_invalid valid rows
   = map (\<lambda>d. if truthy (hs_giayChungNhanID d) \<and> the (hs_giayChungNhanID d) \<notin> valid
               then d\<lparr>hs_giayChungNhanID := None\<rparr> else d) rows"
  by (induction rows) (simp_all add: Let_def)

lemma unique_gcn_ids_member:
  "d \<in> set rows \<Longrightarrow> truthy (hs_giayChungNhanID d)
   \<Longrightarrow> the (hs_giayChungNhanID d) \<in> unique_gcn_ids rows"
  by (auto simp: unique_gcn_ids_def)

lemma nullify_invalid_unique: "nullify_invalid (unique_gcn_ids rows) rows = rows"
  unfolding nullify_invalid_map
  by (rule map_idI) (auto simp: unique_gcn_ids_member)

text \<open>
  When the existence query raises, the except branch keeps every reference and prints the
  warning, but does not roll back: the transaction stays aborted, the batched insert that
  follows raises, and its rollback discards the batch together with everything the
  transaction had done before.
\<close>

lemma check_failure_discards_batch:
  assumes "select_raises db" and "unique_gcn_ids data_list \<noteq> {}"
  shows "insert_hoso db conn data_list
         = (conn\<lparr>working := committed conn, aborted := False,
                 printed := printed conn
                   @ [''Warning: Could not verify giayChungNhanID existence'',
                      ''Error inserting hoso'']\<rparr>,
            data_list, (0, int (length data_list)))"
proof -
  let ?w = "''Warning: Could not verify giayChungNhanID existence''"
  have ne: "data_list \<noteq> []" using assms(2) by (auto simp: unique_gcn_ids_def)
  have ab: "aborted conn \<Longrightarrow> conn\<lparr>aborted := True\<rparr> = conn" by (cases conn) auto
  have v: "valid_gcn_ids db conn data_list
           = (print ?w (conn\<lparr>aborted := True\<rparr>), unique_gcn_ids data_list)"
    using assms by (auto simp: valid_gcn_ids_def select_giaychungnhan_ids_def ab)
  have "fst (cursor_execute_batch (insert_hoso_row db) (print ?w (conn\<lparr>aborted := True\<rparr>))
          data_list) = Inl InFailedSqlTransaction"
    using ne by (simp add: cursor_execute_batch_def print_def)
  then have "try_execute_batch (insert_hoso_row db) ''hoso'' (print ?w (conn\<lparr>aborted := True\<rparr>))
               data_list
         = ((print ?w (conn\<lparr>aborted := True\<rparr>))
              \<lparr>working := committed (print ?w (conn\<lparr>aborted := True\<rparr>)), aborted := False,
               printed := printed (print ?w (conn\<lparr>aborted := True\<rparr>))
                            @ [''Error inserting '' @ ''hoso'']\<rparr>,
            (0, int (length data_list)))"
    by (rule try_execute_batch_raises)
  then show ?thesis
    using ne by (simp add: insert_hoso_def v Let_def nullify_invalid_unique print_def)
qed

text \<open>
  Claim C9 says that after a failed existence query the loader goes on with the insert
  rather than failing the load. The example document is loaded into an empty store whose
  existence query raises. The batch of components is left as it was (no reference is
  nulled) and the warning is printed, but the insert of the components raises: the
  components are reported as skipped, and the rollback leaves the committed store empty,
  so the persons, the certificate and the parcel that were reported as inserted are lost
  too.
\<close>

theorem check_failure_loses_document:
  "fst (snd (insert_hoso db_select_raises conn_empty (extract_hoso_data doc_full)))
     = extract_hoso_data doc_full
   \<and> printed (fst (insert_hoso db_select_raises conn_empty (extract_hoso_data doc_full)))
     = [''Warning: Could not verify giayChungNhanID existence'', ''Error inserting hoso'']
   \<and> snd (load_document db_select_raises conn_empty (extract_thuadat_data doc_full)
            (extract_canhan_data doc_full) (extract_giaychungnhan_data doc_full)
            (extract_hoso_data doc_full))
     = \<lparr>thuadat_counts = (1, 0), canhan_counts = (1, 1),
        giaychungnhan_counts = (1, 0), hoso_counts = (0, 2)\<rparr>
   \<and> committed (fst (load_document db_select_raises conn_empty (extract_thuadat_data doc_full)
            (extract_canhan_data doc_full) (extract_giaychungnhan_data doc_full)
            (extract_hoso_data doc_full)))
     = committed conn_empty
   \<and> map hs_thanhPhanHoSoID (tbl_hoso (committed conn_loaded)) = [''TP1'', ''TP2'']"
  by code_simp

text \<open>
  Claim C3, as stated, holds for every batch. When the existence query raises, a component
  that refers to a certificate the store does not have keeps its reference, and nothing is
  inserted.
\<close>

theorem dangling_reference_counterexample:
  "hs_giayChungNhanID comp_dangling = Some ''G9''
   \<and> ''G9'' \<notin> set (map gcn_giayChungNhanID (tbl_giaychungnhan (working conn_empty)))
   \<and> map hs_giayChungNhanID (fst (snd (insert_hoso db_select_raises conn_empty [comp_dangling])))
       = [Some ''G9'']
   \<and> snd (snd (insert_hoso db_select_raises conn_empty [comp_dangling])) = (0, 1)
   \<and> tbl_hoso (working (fst (insert_hoso db_select_raises conn_empty [comp_dangling]))) = []"
  by code_simp

lemma valid_gcn_ids_answer:
  assumes "\<not> select_raises db" and "\<not> aborted conn"
  shows "fst (valid_gcn_ids db conn rows) = conn
       \<and> snd (valid_gcn_ids db conn rows)
           \<subseteq> set (map gcn_giayChungNhanID (tbl_giaychungnhan (working conn)))
       \<and> unique_gcn_ids rows \<inter> set (map gcn_giayChungNhanID (tbl_giaychungnhan (working conn)))
           \<subseteq> snd (valid_gcn_ids db conn rows)"
  using assms by (auto simp: valid_gcn_ids_def select_giaychungnhan_ids_def)

lemma insert_hoso_row_ok:
  assumes "typed_hoso db x"
      and "references (hs_giayChungNhanID x) (map gcn_giayChungNhanID (tbl_giaychungnhan st))"
  shows "insert_hoso_row db st x
         = (if hs_thanhPhanHoSoID x \<in> set (map hs_thanhPhanHoSoID (tbl_hoso st)) then Inr (st, 0)
            else Inr (st\<lparr>tbl_hoso := tbl_hoso st @ [x]\<rparr>, 1))"
  using assms by (simp add: insert_hoso_row_def)

lemma execute_batch_hoso_ok:
  assumes "\<forall>x \<in> set rows. typed_hoso db x \<and>
             references (hs_giayChungNhanID x) (map gcn_giayChungNhanID (tbl_giaychungnhan st))"
  shows "\<exists>n st'. execute_batch (insert_hoso_row db) st rows rc = (Inr n, st')
           \<and> tbl_giaychungnhan st' = tbl_giaychungnhan st
           \<and> set (tbl_hoso st) \<subseteq> set (tbl_hoso st')
           \<and> (\<forall>x \<in> set rows. distinct (map hs_thanhPhanHoSoID rows)
                 \<longrightarrow> hs_thanhPhanHoSoID x \<notin> set (map hs_thanhPhanHoSoID (tbl_hoso st))
                 \<longrightarrow> x \<in> set (tbl_hoso st'))"
  using assms
proof (induction rows arbitrary: st rc)
  case Nil
  then show ?case by simp
next
  case (Cons r rows)
  let ?ids = "\<lambda>s. set (map hs_thanhPhanHoSoID (tbl_hoso s))"
  let ?st1 = "if hs_thanhPhanHoSoID r \<in> ?ids st then st else st\<lparr>tbl_hoso := tbl_hoso st @ [r]\<rparr>"
  let ?n1 = "if hs_thanhPhanHoSoID r \<in> ?ids st then 0 else (1::int)"
  have step: "insert_hoso_row db st r = Inr (?st1, ?n1)"
    using Cons.prems by (simp add: insert_hoso_row_ok)
  have g1: "tbl_giaychungnhan ?st1 = tbl_giaychungnhan st" by simp
  have pre: "\<forall>x \<in> set rows. typed_hoso db x \<and>
             references (hs_giayChungNhanID x) (map gcn_giayChungNhanID (tbl_giaychungnhan ?st1))"
    using Cons.prems by simp
  obtain n st' where ih: "execute_batch (insert_hoso_row db) ?st1 rows ?n1 = (Inr n, st')"
      "tbl_giaychungnhan st' = tbl_giaychungnhan ?st1"
      "set (tbl_hoso ?st1) \<subseteq> set (tbl_hoso st')"
      "\<forall>x \<in> set rows. distinct (map hs_thanhPhanHoSoID rows)
                 \<longrightarrow> hs_thanhPhanHoSoID x \<notin> ?ids ?st1 \<longrightarrow> x \<in> set (tbl_hoso st')"
    using Cons.IH [OF pre, of ?n1] by blast
  have e: "execute_batch (insert_hoso_row db) st (r # rows) rc = (Inr n, st')"
    using step ih(1) by simp
  have mono: "set (tbl_hoso st) \<subseteq> set (tbl_hoso st')" using ih(3) by (auto split: if_splits)
  have stored: "x \<in> set (tbl_hoso st')"
    if x: "x \<in> set (r # rows)" and d: "distinct (map hs_thanhPhanHoSoID (r # rows))"
      and new: "hs_thanhPhanHoSoID x \<notin> ?ids st" for x
  proof (cases "x = r")
    case True
    then have "r \<in> set (tbl_hoso ?st1)" using new by simp
    then show ?thesis using ih(3) True by blast
  next
    case False
    then have xr: "x \<in> set rows" using x by simp
    have "hs_thanhPhanHoSoID r \<notin> hs_thanhPhanHoSoID ` set rows" using d by simp
    moreover have "hs_thanhPhanHoSoID x \<in> hs_thanhPhanHoSoID ` set rows"
      using xr by (rule imageI)
    ultimately have "hs_thanhPhanHoSoID x \<noteq> hs_thanhPhanHoSoID r" by metis
    then have "hs_thanhPhanHoSoID x \<notin> ?ids ?st1" using new by auto
    then show ?thesis using ih(4) xr d by simp
  qed
  show ?case using e ih(2) g1 mono stored by (intro exI [of _ n] exI [of _ st']) simp
qed

text \<open>
  Claim C3, amended. On an open transaction whose existence query answers, a component
  whose certificate reference is a non-empty identifier that the certificate table does
  not hold is rewritten to a null reference before the insert: the batch handed to the
  insert has the component with a null reference at each of its places, and is otherwise as
  long as before. If moreover no component of the batch has an empty-string reference,
  the rows of the rewritten batch fit the column types, the component identifiers of the
  batch are distinct and the component's identifier is not yet stored, then the insert
  does not raise (the transaction stays open, nothing is printed, every row stored before
  stays) and the component is stored with the null reference.
\<close>

theorem dangling_reference_is_nulled:
  assumes "\<not> select_raises db" and "\<not> aborted conn"
      and "d \<in> set data_list" and "hs_giayChungNhanID d = Some g" and "g \<noteq> []"
      and "g \<notin> set (map gcn_giayChungNhanID (tbl_giaychungnhan (working conn)))"
  shows "length (fst (snd (insert_hoso db conn data_list))) = length data_list
       \<and> (\<forall>i < length data_list. data_list ! i = d \<longrightarrow>
            fst (snd (insert_hoso db conn data_list)) ! i = d\<lparr>hs_giayChungNhanID := None\<rparr>)
       \<and> ((\<forall>x \<in> set data_list. hs_giayChungNhanID x \<noteq> Some [])
            \<and> (\<forall>x \<in> set (fst (snd (insert_hoso db conn data_list))). typed_hoso db x)
            \<and> distinct (map hs_thanhPhanHoSoID data_list)
            \<and> hs_thanhPhanHoSoID d \<notin> set (map hs_thanhPhanHoSoID (tbl_hoso (working conn)))
          \<longrightarrow> \<not> aborted (fst (insert_hoso db conn data_list))
            \<and> printed (fst (insert_hoso db conn data_list)) = printed conn
            \<and> set (tbl_hoso (working conn))
                \<subseteq> set (tbl_hoso (working (fst (insert_hoso db conn data_list))))
            \<and> d\<lparr>hs_giayChungNhanID := None\<rparr>
                \<in> set (tbl_hoso (working (fst (insert_hoso db conn data_list)))))"
proof -
  let ?keys = "map gcn_giayChungNhanID (tbl_giaychungnhan (working conn))"
  let ?valid = "snd (valid_gcn_ids db conn data_list)"
  define f :: "hoso \<Rightarrow> hoso" where "f = (\<lambda>y. if truthy (hs_giayChungNhanID y) \<and> the (hs_giayChungNhanID y) \<notin> ?valid
               then y\<lparr>hs_giayChungNhanID := None\<rparr> else y)"
  let ?rows1 = "nullify_invalid ?valid data_list"
  let ?d1 = "d\<lparr>hs_giayChungNhanID := None\<rparr>"
  note va = valid_gcn_ids_answer [OF assms(1,2), of data_list]
  have ne: "data_list \<noteq> []" using assms(3) by auto
  have i: "insert_hoso db conn data_list
       = (fst (try_execute_batch (insert_hoso_row db) ''hoso'' conn ?rows1), ?rows1,
          snd (try_execute_batch (insert_hoso_row db) ''hoso'' conn ?rows1))"
    using ne va by (simp add: insert_hoso_def Let_def case_prod_beta)
  have rows1: "?rows1 = map f data_list" unfolding f_def by (rule nullify_invalid_map)
  have "g \<notin> ?valid" using va assms(6) by auto
  then have fd: "f d = ?d1" using assms(4,5) by (simp add: f_def truthy_def)
  have len: "length (fst (snd (insert_hoso db conn data_list))) = length data_list"
    by (simp add: i nullify_invalid_length)
  have pos: "\<forall>i < length data_list. data_list ! i = d \<longrightarrow>
            fst (snd (insert_hoso db conn data_list)) ! i = ?d1"
    by (simp add: i rows1 fd)
  have ins: "\<not> aborted (fst (insert_hoso db conn data_list))
            \<and> printed (fst (insert_hoso db conn data_list)) = printed conn
            \<and> set (tbl_hoso (working conn))
                \<subseteq> set (tbl_hoso (working (fst (insert_hoso db conn data_list))))
            \<and> ?d1 \<in> set (tbl_hoso (working (fst (insert_hoso db conn data_list))))"
    if e1: "\<forall>x \<in> set data_list. hs_giayChungNhanID x \<noteq> Some []"
      and e2: "\<forall>x \<in> set (fst (snd (insert_hoso db conn data_list))). typed_hoso db x"
      and e3: "distinct (map hs_thanhPhanHoSoID data_list)"
      and e4: "hs_thanhPhanHoSoID d \<notin> set (map hs_thanhPhanHoSoID (tbl_hoso (working conn)))"
  proof -
    have d1: "?d1 \<in> set ?rows1" using assms(3) fd unfolding rows1 by force
    have typed: "\<forall>x \<in> set ?rows1. typed_hoso db x" using e2 i by simp
    have fk: "references (hs_giayChungNhanID x) ?keys" if "x \<in> set ?rows1" for x
    proof -
      have "x \<in> f ` set data_list" using that unfolding rows1 by (simp only: set_map)
      then obtain y where y: "y \<in> set data_list" and x: "x = f y" by blast
      show ?thesis
      proof (cases "hs_giayChungNhanID y")
        case None
        then show ?thesis using x by (simp add: f_def references_def truthy_def)
      next
        case (Some k)
        then have "k \<noteq> []" using e1 y by auto
        then show ?thesis using x Some va by (auto simp: f_def references_def truthy_def)
      qed
    qed
    obtain n st' where ex: "execute_batch (insert_hoso_row db) (working conn) ?rows1 (- 1) = (Inr n, st')"
        and mono: "set (tbl_hoso (working conn)) \<subseteq> set (tbl_hoso st')"
        and st: "\<forall>x \<in> set ?rows1. distinct (map hs_thanhPhanHoSoID ?rows1)
                   \<longrightarrow> hs_thanhPhanHoSoID x \<notin> set (map hs_thanhPhanHoSoID (tbl_hoso (working conn)))
                   \<longrightarrow> x \<in> set (tbl_hoso st')"
      using execute_batch_hoso_ok [of ?rows1 db "working conn" "- 1"] typed fk by blast
    have "distinct (map hs_thanhPhanHoSoID ?rows1)"
      using e3 by (simp only: nullify_invalid_ids)
    then have stored: "?d1 \<in> set (tbl_hoso st')" using st d1 e4 by auto
    have t: "fst (try_execute_batch (insert_hoso_row db) ''hoso'' conn ?rows1)
             = conn\<lparr>working := st'\<rparr>"
      using ex assms(2) by (simp add: try_execute_batch_def cursor_execute_batch_def)
    show ?thesis using i t stored mono assms(2) by simp
  qed
  show ?thesis using len pos ins by blast
qed

text \<open>
  Claim C3, amended, at a batch of one component that refers to a certificate the store
  lacks.
\<close>

theorem dangling_reference_witness:
  "\<not> select_raises db_ok \<and> \<not> aborted conn_empty
   \<and> hs_giayChungNhanID comp_dangling = Some ''G9''
   \<and> ''G9'' \<notin> set (map gcn_giayChungNhanID (tbl_giaychungnhan (working conn_empty)))
   \<and> typed_hoso db_ok (comp_dangling\<lparr>hs_giayChungNhanID := None\<rparr>)
   \<and> distinct (map hs_thanhPhanHoSoID [comp_dangling])
   \<and> hs_thanhPhanHoSoID comp_dangling \<notin> set (map hs_thanhPhanHoSoID (tbl_hoso (working conn_empty)))
   \<and> fst (snd (insert_hoso db_ok conn_empty [comp_dangling])) ! 0
       = comp_dangling\<lparr>hs_giayChungNhanID := None\<rparr>
   \<and> comp_dangling\<lparr>hs_giayChungNhanID := None\<rparr>
       \<in> set (tbl_hoso (working (fst (insert_hoso db_ok conn_empty [comp_dangling]))))"
proof -
  have h1: "\<not> select_raises db_ok" by code_simp
  have h2: "\<not> aborted conn_empty" by code_simp
  have h3: "comp_dangling \<in> set [comp_dangling]" by simp
  have h4: "hs_giayChungNhanID comp_dangling = Some ''G9''" by (simp add: comp_dangling_def)
  have h5: "''G9'' \<noteq> []" by simp
  have h6: "''G9'' \<notin> set (map gcn_giayChungNhanID (tbl_giaychungnhan (working conn_empty)))"
    by (simp add: conn_empty_def)
  note t = dangling_reference_is_nulled [OF h1 h2 h3 h4 h5 h6]
  have p: "fst (snd (insert_hoso db_ok conn_empty [comp_dangling])) ! 0
       = comp_dangling\<lparr>hs_giayChungNhanID := None\<rparr>"
    using t by simp
  have l: "length (fst (snd (insert_hoso db_ok conn_empty [comp_dangling]))) = 1"
    using t by simp
  have r: "fst (snd (insert_hoso db_ok conn_empty [comp_dangling]))
       = [comp_dangling\<lparr>hs_giayChungNhanID := None\<rparr>]"
    using p l by (cases "fst (snd (insert_hoso db_ok conn_empty [comp_dangling]))") auto
  have ty: "typed_hoso db_ok (comp_dangling\<lparr>hs_giayChungNhanID := None\<rparr>)"
    by (simp add: db_ok_def)
  have e1: "\<forall>x \<in> set [comp_dangling]. hs_giayChungNhanID x \<noteq> Some []"
    by (simp add: comp_dangling_def)
  have e2: "\<forall>x \<in> set (fst (snd (insert_hoso db_ok conn_empty [comp_dangling]))). typed_hoso db_ok x"
    by (simp add: r ty)
  have e3: "distinct (map hs_thanhPhanHoSoID [comp_dangling])" by simp
  have e4: "hs_thanhPhanHoSoID comp_dangling
              \<notin> set (map hs_thanhPhanHoSoID (tbl_hoso (working conn_empty)))"
    by (simp add: conn_empty_def)
  have s: "comp_dangling\<lparr>hs_giayChungNhanID := None\<rparr>
       \<in> set (tbl_hoso (working (fst (insert_hoso db_ok conn_empty [comp_dangling]))))"
    using t e1 e2 e3 e4 by blast
  show ?thesis using h1 h2 h4 h6 ty e3 e4 p s by (intro conjI)
qed

end
